theory Spec2Isabelle
  imports Complex_Main
begin

section \<open>Python values\<close>

text \<open>
  The papers handled by \<^verbatim>\<open>streamlit_app.py\<close> are Python dictionaries. Those of the
  Semantic Scholar adapter come straight out of \<^verbatim>\<open>response.json()\<close>, so a field can hold
  any JSON value; the arXiv and PubMed adapters build dictionaries whose fields are
  strings, integers or \<^verbatim>\<open>None\<close>. A value is therefore modelled dynamically.

  \<^item> \<open>JFloat\<close> carries a finite float as the real number it denotes: Python compares an
    \<^verbatim>\<open>int\<close> with a \<^verbatim>\<open>float\<close> exactly, so the order is that of the reals.
  \<^item> \<open>JNonFinite\<close> stands for \<^verbatim>\<open>NaN\<close>, \<^verbatim>\<open>Infinity\<close> and \<^verbatim>\<open>-Infinity\<close>, which
    \<^verbatim>\<open>json.loads\<close> accepts.
  \<^item> \<open>JObj\<close> lists the items of a \<^verbatim>\<open>dict\<close> in insertion order; a key is looked up
    with \<open>map_of\<close>.
  \<^item> A string is a list of ASCII characters.
\<close>

datatype jval =
    JNull
  | JBool bool
  | JInt int
  | JFloat real
  | JNonFinite
  | JStr string
  | JArr "jval list"
  | JObj "(string \<times> jval) list"

text \<open>The exceptions that the modelled operations raise; all are subclasses of
  \<^verbatim>\<open>Exception\<close>.\<close>

datatype exn =
    RequestException
  | HTTPError
  | JSONDecodeError
  | ParseError
  | AttributeError
  | KeyError
  | TypeError
  | ValueError
  | IndexError

definition bind_exn :: "exn + 'a \<Rightarrow> ('a \<Rightarrow> exn + 'b) \<Rightarrow> exn + 'b" where
  "bind_exn m f = (case m of Inl e \<Rightarrow> Inl e | Inr x \<Rightarrow> f x)"

text \<open>Truth value testing (\<^verbatim>\<open>bool(v)\<close>).\<close>

fun truthy :: "jval \<Rightarrow> bool" where
  "truthy JNull = False"
| "truthy (JBool b) = b"
| "truthy (JInt i) = (i \<noteq> 0)"
| "truthy (JFloat r) = (r \<noteq> 0)"
| "truthy JNonFinite = True"
| "truthy (JStr s) = (s \<noteq> [])"
| "truthy (JArr xs) = (xs \<noteq> [])"
| "truthy (JObj kvs) = (kvs \<noteq> [])"

text \<open>\<^verbatim>\<open>p.get(key)\<close>: \<^verbatim>\<open>None\<close> for a missing key; only a \<^verbatim>\<open>dict\<close> has the method.\<close>

fun py_get :: "jval \<Rightarrow> string \<Rightarrow> exn + jval" where
  "py_get (JObj kvs) k = Inr (case map_of kvs k of None \<Rightarrow> JNull | Some v \<Rightarrow> v)"
| "py_get _ k = Inl AttributeError"

text \<open>\<^verbatim>\<open>p.get(key, default)\<close>.\<close>

fun py_get_default :: "jval \<Rightarrow> string \<Rightarrow> jval \<Rightarrow> exn + jval" where
  "py_get_default (JObj kvs) k d = Inr (case map_of kvs k of None \<Rightarrow> d | Some v \<Rightarrow> v)"
| "py_get_default _ k d = Inl AttributeError"

text \<open>\<^verbatim>\<open>p[key]\<close> with a string key: \<^verbatim>\<open>KeyError\<close> on a \<^verbatim>\<open>dict\<close> without the key,
  \<^verbatim>\<open>TypeError\<close> on every other value.\<close>

fun py_getitem :: "jval \<Rightarrow> string \<Rightarrow> exn + jval" where
  "py_getitem (JObj kvs) k = (case map_of kvs k of None \<Rightarrow> Inl KeyError | Some v \<Rightarrow> Inr v)"
| "py_getitem _ k = Inl TypeError"

text \<open>The chained comparison \<^verbatim>\<open>start_year <= y <= end_year\<close> with integer bounds. A
  \<^verbatim>\<open>bool\<close> is an \<^verbatim>\<open>int\<close>; \<^verbatim>\<open>NaN\<close> and the infinities fail one of the two
  comparisons; every other operand raises \<^verbatim>\<open>TypeError\<close> at the first comparison.\<close>

fun in_range :: "int \<Rightarrow> jval \<Rightarrow> int \<Rightarrow> exn + bool" where
  "in_range lo (JInt y) hi = Inr (lo \<le> y \<and> y \<le> hi)"
| "in_range lo (JBool b) hi = Inr (lo \<le> (if b then 1 else 0) \<and> (if b then 1 else 0) \<le> hi)"
| "in_range lo (JFloat r) hi = Inr (of_int lo \<le> r \<and> r \<le> of_int hi)"
| "in_range lo JNonFinite hi = Inr False"
| "in_range lo _ hi = Inl TypeError"

section \<open>The aggregation filter of \<^verbatim>\<open>main\<close> (lines 159-160)\<close>

text \<open>\<^verbatim>\<open>ss_papers + arxiv_papers + pubmed_papers\<close>: the first operand is whatever the
  Semantic Scholar response holds under \<^verbatim>\<open>"data"\<close>; the other two are lists. Adding a
  list to a value that is not a list raises \<^verbatim>\<open>TypeError\<close>.\<close>

fun all_papers :: "jval \<Rightarrow> jval list \<Rightarrow> jval list \<Rightarrow> exn + jval list" where
  "all_papers (JArr ss_papers) arxiv_papers pubmed_papers =
     Inr (ss_papers @ arxiv_papers @ pubmed_papers)"
| "all_papers _ arxiv_papers pubmed_papers = Inl TypeError"

text \<open>The condition of the comprehension,
  \<^verbatim>\<open>p.get("abstract") and p.get("year") and start_year <= p["year"] <= end_year\<close>,
  evaluated left to right with short-circuiting.\<close>

definition keep_paper :: "int \<Rightarrow> int \<Rightarrow> jval \<Rightarrow> exn + bool" where
  "keep_paper start_year end_year p =
     bind_exn (py_get p ''abstract'') (\<lambda>a.
       if \<not> truthy a then Inr False
       else bind_exn (py_get p ''year'') (\<lambda>y.
         if \<not> truthy y then Inr False
         else bind_exn (py_getitem p ''year'') (\<lambda>y'. in_range start_year y' end_year)))"

text \<open>The comprehension itself: the first exception ends it.\<close>

fun filtered_papers :: "int \<Rightarrow> int \<Rightarrow> jval list \<Rightarrow> exn + jval list" where
  "filtered_papers start_year end_year [] = Inr []"
| "filtered_papers start_year end_year (p # ps) =
     bind_exn (keep_paper start_year end_year p) (\<lambda>b.
       bind_exn (filtered_papers start_year end_year ps) (\<lambda>rest.
         Inr (if b then p # rest else rest)))"

definition aggregate :: "jval \<Rightarrow> jval list \<Rightarrow> jval list \<Rightarrow> int \<Rightarrow> int \<Rightarrow> exn + jval list" where
  "aggregate ss_papers arxiv_papers pubmed_papers start_year end_year =
     bind_exn (all_papers ss_papers arxiv_papers pubmed_papers)
       (filtered_papers start_year end_year)"

text \<open>The number a JSON value denotes, when it is one.\<close>

fun py_number :: "jval \<Rightarrow> real option" where
  "py_number (JInt i) = Some (of_int i)"
| "py_number (JBool b) = Some (if b then 1 else 0)"
| "py_number (JFloat r) = Some r"
| "py_number _ = None"

section \<open>Properties of the aggregation filter\<close>

lemma bind_exn_Inr_iff:
  "bind_exn m f = Inr y \<longleftrightarrow> (\<exists>x. m = Inr x \<and> f x = Inr y)"
  by (cases m) (simp_all add: bind_exn_def)

lemma filtered_papers_kept:
  "filtered_papers lo hi ps = Inr out \<Longrightarrow> p \<in> set out \<Longrightarrow>
     p \<in> set ps \<and> keep_paper lo hi p = Inr True"
proof (induction ps arbitrary: out)
  case Nil
  then show ?case by simp
next
  case (Cons q qs)
  from Cons.prems(1) obtain b rest where
    b: "keep_paper lo hi q = Inr b" and
    rest: "filtered_papers lo hi qs = Inr rest" and
    out: "out = (if b then q # rest else rest)"
    by (auto simp: bind_exn_Inr_iff)
  show ?case
  proof (cases "p \<in> set rest")
    case True
    with Cons.IH [OF rest] show ?thesis by simp
  next
    case False
    with Cons.prems(2) out have "b" "p = q" by (auto split: if_splits)
    with b show ?thesis by simp
  qed
qed

lemma keep_paper_True:
  assumes "keep_paper lo hi p = Inr True"
  shows "\<exists>kvs a y. p = JObj kvs \<and> map_of kvs ''abstract'' = Some a \<and> truthy a
           \<and> map_of kvs ''year'' = Some y \<and> truthy y \<and> in_range lo y hi = Inr True"
proof (cases p)
  case (JObj kvs)
  with assms show ?thesis
    by (auto simp: keep_paper_def bind_exn_def split: option.splits if_splits)
qed (use assms in \<open>simp_all add: keep_paper_def bind_exn_def\<close>)

lemma in_range_True:
  "in_range lo y hi = Inr True \<Longrightarrow>
     \<exists>r. py_number y = Some r \<and> of_int lo \<le> r \<and> r \<le> of_int hi"
  by (cases y) (auto split: if_splits)

text \<open>
  \<^bold>\<open>C1.\<close> Whatever the three adapters return and whatever the year range, every paper of
  the aggregator's output is a dictionary with an abstract that is present and not
  \<^verbatim>\<open>None\<close>, a year that is present and not \<^verbatim>\<open>None\<close>, and
  \<open>start_year \<le> year \<le> end_year\<close>. So a paper whose abstract or year is absent is never
  in the output.
\<close>

theorem aggregate_output_in_range:
  assumes "aggregate ss_papers arxiv_papers pubmed_papers start_year end_year = Inr out"
    and "p \<in> set out"
  shows "\<exists>kvs a y r. p = JObj kvs
           \<and> map_of kvs ''abstract'' = Some a \<and> a \<noteq> JNull
           \<and> map_of kvs ''year'' = Some y \<and> y \<noteq> JNull
           \<and> py_number y = Some r \<and> of_int start_year \<le> r \<and> r \<le> of_int end_year"
proof -
  from assms(1) obtain ps where
    "filtered_papers start_year end_year ps = Inr out"
    by (auto simp: aggregate_def bind_exn_Inr_iff)
  from filtered_papers_kept [OF this assms(2)]
  have "keep_paper start_year end_year p = Inr True" by simp
  from keep_paper_True [OF this] obtain kvs a y where
    p: "p = JObj kvs" "map_of kvs ''abstract'' = Some a" "truthy a"
       "map_of kvs ''year'' = Some y" "truthy y"
       "in_range start_year y end_year = Inr True"
    by blast
  from in_range_True [OF p(6)] obtain r where
    "py_number y = Some r" "of_int start_year \<le> r" "r \<le> of_int end_year"
    by blast
  moreover from p(3) have "a \<noteq> JNull" by auto
  moreover from p(5) have "y \<noteq> JNull" by auto
  ultimately show ?thesis using p(1,2,4) by blast
qed

text \<open>The witness: one paper of 2021 inside the range 2020-2024 next to one without an
  abstract.\<close>

theorem aggregate_output_in_range_witness:
  "aggregate
     (JArr [JObj [(''title'', JStr ''A''), (''abstract'', JStr ''x''), (''year'', JInt 2021)],
            JObj [(''title'', JStr ''B''), (''year'', JInt 2022)]])
     [] [] 2020 2024
     = Inr [JObj [(''title'', JStr ''A''), (''abstract'', JStr ''x''), (''year'', JInt 2021)]]
   \<and> (\<exists>kvs a y r.
         JObj [(''title'', JStr ''A''), (''abstract'', JStr ''x''), (''year'', JInt 2021)] = JObj kvs
         \<and> map_of kvs ''abstract'' = Some a \<and> a \<noteq> JNull
         \<and> map_of kvs ''year'' = Some y \<and> y \<noteq> JNull
         \<and> py_number y = Some r \<and> of_int 2020 \<le> r \<and> r \<le> of_int 2024)"
proof -
  let ?p = "JObj [(''title'', JStr ''A''), (''abstract'', JStr ''x''), (''year'', JInt 2021)]"
  let ?q = "JObj [(''title'', JStr ''B''), (''year'', JInt 2022)]"
  have run: "aggregate (JArr [?p, ?q]) [] [] 2020 2024 = Inr [?p]"
    by (simp add: aggregate_def keep_paper_def bind_exn_def)
  have mem: "?p \<in> set [?p]" by simp
  from aggregate_output_in_range [OF run mem] run show ?thesis by simp
qed

text \<open>The dictionary without a key.\<close>

definition del_key :: "string \<Rightarrow> (string \<times> jval) list \<Rightarrow> (string \<times> jval) list" where
  "del_key k kvs = filter (\<lambda>kv. fst kv \<noteq> k) kvs"

lemma map_of_del_key_same: "map_of (del_key k kvs) k = None"
  by (simp add: del_key_def map_of_eq_None_iff image_iff)

lemma map_of_del_key_other: "k' \<noteq> k \<Longrightarrow> map_of (del_key k kvs) k' = map_of kvs k'"
  by (induction kvs) (auto simp: del_key_def)

lemma keep_paper_empty_abstract:
  "map_of kvs ''abstract'' = Some (JStr []) \<Longrightarrow> keep_paper lo hi (JObj kvs) = Inr False"
  by (simp add: keep_paper_def bind_exn_def)

lemma keep_paper_no_abstract:
  "map_of kvs ''abstract'' = None \<Longrightarrow> keep_paper lo hi (JObj kvs) = Inr False"
  by (simp add: keep_paper_def bind_exn_def)

lemma keep_paper_zero_year:
  "map_of kvs ''year'' = Some (JInt 0) \<Longrightarrow> keep_paper lo hi (JObj kvs) = Inr False"
  by (simp add: keep_paper_def bind_exn_def split: option.splits)

lemma keep_paper_no_year:
  "map_of kvs ''year'' = None \<Longrightarrow> keep_paper lo hi (JObj kvs) = Inr False"
  by (simp add: keep_paper_def bind_exn_def split: option.splits)

text \<open>
  \<^bold>\<open>C10.\<close> The filter tests truthiness: a record whose abstract is the empty string, or
  whose year is \<open>0\<close>, is not in the aggregator's output, whatever the year range, and the
  filter decides it exactly as it decides the same record without that field.
\<close>

theorem aggregate_drops_falsy_fields:
  assumes "aggregate ss_papers arxiv_papers pubmed_papers start_year end_year = Inr out"
  shows "(map_of kvs ''abstract'' = Some (JStr []) \<longrightarrow>
            JObj kvs \<notin> set out
            \<and> keep_paper start_year end_year (JObj kvs) = Inr False
            \<and> keep_paper start_year end_year (JObj (del_key ''abstract'' kvs)) = Inr False)
       \<and> (map_of kvs ''year'' = Some (JInt 0) \<longrightarrow>
            JObj kvs \<notin> set out
            \<and> keep_paper start_year end_year (JObj kvs) = Inr False
            \<and> keep_paper start_year end_year (JObj (del_key ''year'' kvs)) = Inr False)"
proof -
  from assms obtain ps where
    ps: "filtered_papers start_year end_year ps = Inr out"
    by (auto simp: aggregate_def bind_exn_Inr_iff)
  have dropped: "JObj kvs \<notin> set out"
    if "keep_paper start_year end_year (JObj kvs) = Inr False"
    using filtered_papers_kept [OF ps, of "JObj kvs"] that by auto
  show ?thesis
    using dropped keep_paper_empty_abstract keep_paper_zero_year
      keep_paper_no_abstract [OF map_of_del_key_same]
      keep_paper_no_year [OF map_of_del_key_same]
    by blast
qed

text \<open>The witness: the year range \<open>-5 .. 5\<close> contains the year \<open>0\<close>, and the record is
  dropped all the same.\<close>

theorem aggregate_drops_falsy_fields_witness:
  "aggregate
     (JArr [JObj [(''abstract'', JStr []), (''year'', JInt 0)],
            JObj [(''abstract'', JStr ''x''), (''year'', JInt 0)],
            JObj [(''abstract'', JStr ''x''), (''year'', JInt 1)]])
     [] [] (- 5) 5
     = Inr [JObj [(''abstract'', JStr ''x''), (''year'', JInt 1)]]
   \<and> map_of [(''abstract'', JStr []), (''year'', JInt 0)] ''abstract'' = Some (JStr [])
   \<and> map_of [(''abstract'', JStr []), (''year'', JInt 0)] ''year'' = Some (JInt 0)
   \<and> JObj [(''abstract'', JStr []), (''year'', JInt 0)]
       \<notin> set [JObj [(''abstract'', JStr ''x''), (''year'', JInt 1)]]
   \<and> keep_paper (- 5) 5 (JObj [(''abstract'', JStr []), (''year'', JInt 0)]) = Inr False
   \<and> keep_paper (- 5) 5 (JObj (del_key ''abstract'' [(''abstract'', JStr []), (''year'', JInt 0)]))
       = Inr False
   \<and> keep_paper (- 5) 5 (JObj (del_key ''year'' [(''abstract'', JStr []), (''year'', JInt 0)]))
       = Inr False"
proof -
  let ?kvs = "[(''abstract'', JStr []), (''year'', JInt 0)]"
  let ?ss = "JArr [JObj ?kvs, JObj [(''abstract'', JStr ''x''), (''year'', JInt 0)],
                   JObj [(''abstract'', JStr ''x''), (''year'', JInt 1)]]"
  have run: "aggregate ?ss [] [] (- 5) 5
               = Inr [JObj [(''abstract'', JStr ''x''), (''year'', JInt 1)]]"
    by (simp add: aggregate_def keep_paper_def bind_exn_def)
  have a: "map_of ?kvs ''abstract'' = Some (JStr [])" by simp
  have y: "map_of ?kvs ''year'' = Some (JInt 0)" by simp
  from aggregate_drops_falsy_fields [OF run, of ?kvs] a y run show ?thesis by simp
qed

section \<open>The ranking step of \<^verbatim>\<open>main\<close> (lines 169-174)\<close>

text \<open>
  A similarity is the Python \<^verbatim>\<open>float\<close> that \<^verbatim>\<open>util.pytorch_cos_sim(...).item()\<close>
  returns, modelled as the real number it denotes; the cosine itself, like the embedding
  model, is a parameter. The loop reads \<^verbatim>\<open>paper_embeddings[idx]\<close>, which raises
  \<^verbatim>\<open>IndexError\<close> past the end.
\<close>

fun score_papers ::
  "('v \<Rightarrow> 'v \<Rightarrow> real) \<Rightarrow> 'v \<Rightarrow> 'v list \<Rightarrow> nat \<Rightarrow> jval list \<Rightarrow> exn + (real \<times> jval) list"
where
  "score_papers cos_sim idea_embedding paper_embeddings idx [] = Inr []"
| "score_papers cos_sim idea_embedding paper_embeddings idx (paper # papers) =
     (if idx < length paper_embeddings
      then bind_exn (score_papers cos_sim idea_embedding paper_embeddings (Suc idx) papers)
             (\<lambda>rest. Inr ((cos_sim idea_embedding (paper_embeddings ! idx), paper) # rest))
      else Inl IndexError)"

text \<open>\<^verbatim>\<open>list.sort(key=..., reverse=True)\<close>: CPython reverses the list, sorts it with its
  stable ascending sort and reverses the result, so that equal keys keep their original
  order. \<open>sort_key\<close> is a stable ascending sort.\<close>

definition py_sort_reverse :: "('a \<Rightarrow> real) \<Rightarrow> 'a list \<Rightarrow> 'a list" where
  "py_sort_reverse key xs = rev (sort_key key (rev xs))"

definition rank_papers ::
  "('v \<Rightarrow> 'v \<Rightarrow> real) \<Rightarrow> 'v \<Rightarrow> 'v list \<Rightarrow> jval list \<Rightarrow> exn + (real \<times> jval) list"
where
  "rank_papers cos_sim idea_embedding paper_embeddings filtered =
     bind_exn (score_papers cos_sim idea_embedding paper_embeddings 0 filtered)
       (\<lambda>scored_papers. Inr (py_sort_reverse fst scored_papers))"

lemma score_papers_zip:
  "score_papers cs idea embs idx ps = Inr sp \<Longrightarrow>
     sp = zip (map (cs idea) (drop idx embs)) ps"
proof (induction ps arbitrary: idx sp)
  case Nil
  then show ?case by simp
next
  case (Cons p ps)
  from Cons.prems have idx: "idx < length embs"
    by (simp split: if_splits)
  with Cons.prems obtain rest where
    rest: "score_papers cs idea embs (Suc idx) ps = Inr rest" and
    sp: "sp = (cs idea (embs ! idx), p) # rest"
    by (auto simp: bind_exn_Inr_iff)
  from Cons.IH [OF rest] have
    "rest = zip (map (cs idea) (drop (Suc idx) embs)) ps" .
  moreover from idx have "drop idx embs = embs ! idx # drop (Suc idx) embs"
    by (simp add: Cons_nth_drop_Suc)
  ultimately show ?case using sp by simp
qed

lemma py_sort_reverse_sorted: "sorted_wrt (\<lambda>a b. key a \<ge> key b) (py_sort_reverse key xs)"
proof -
  have "sorted (map key (sort_key key (rev xs)))" by simp
  then have "sorted_wrt (\<lambda>a b. key a \<le> key b) (sort_key key (rev xs))"
    by (simp only: sorted_map)
  then show ?thesis
    by (simp add: py_sort_reverse_def sorted_wrt_rev)
qed

lemma py_sort_reverse_stable:
  "filter (\<lambda>x. key x = k) (py_sort_reverse key xs) = filter (\<lambda>x. key x = k) xs"
proof -
  have "filter (\<lambda>x. key x = k) (py_sort_reverse key xs)
          = rev (filter (\<lambda>x. key x = k) (sort_key key (rev xs)))"
    by (simp add: py_sort_reverse_def rev_filter)
  also have "\<dots> = rev (filter (\<lambda>x. key x = k) (rev xs))"
    by (simp only: sort_key_stable)
  also have "\<dots> = filter (\<lambda>x. key x = k) xs"
    by (simp add: rev_filter)
  finally show ?thesis .
qed

text \<open>
  \<^bold>\<open>C2.\<close> The ranked list is in descending order of similarity: each pair is at least as
  similar as the one after it (and as every later one). The pairs of one similarity \<open>k\<close>
  stand in the ranked list in the order they have in the filtered, concatenated input
  list, each paired with the similarity of its own embedding.
\<close>

theorem rank_papers_sorted_stable:
  assumes "rank_papers cos_sim idea_embedding paper_embeddings filtered = Inr ranked"
  shows "(\<forall>i. Suc i < length ranked \<longrightarrow> fst (ranked ! i) \<ge> fst (ranked ! Suc i))
       \<and> sorted_wrt (\<lambda>a b. fst a \<ge> fst b) ranked
       \<and> (\<forall>k. filter (\<lambda>sp. fst sp = k) ranked
               = filter (\<lambda>sp. fst sp = k)
                   (zip (map (cos_sim idea_embedding) paper_embeddings) filtered))"
proof -
  from assms obtain scored where
    scored: "score_papers cos_sim idea_embedding paper_embeddings 0 filtered = Inr scored" and
    ranked: "ranked = py_sort_reverse fst scored"
    by (auto simp: rank_papers_def bind_exn_Inr_iff)
  from score_papers_zip [OF scored]
  have zip: "scored = zip (map (cos_sim idea_embedding) paper_embeddings) filtered"
    by simp
  have sorted: "sorted_wrt (\<lambda>a b. fst a \<ge> fst b) ranked"
    unfolding ranked by (rule py_sort_reverse_sorted)
  then have "\<forall>i. Suc i < length ranked \<longrightarrow> fst (ranked ! i) \<ge> fst (ranked ! Suc i)"
    by (simp add: sorted_wrt_iff_nth_less)
  moreover have "\<forall>k. filter (\<lambda>sp. fst sp = k) ranked = filter (\<lambda>sp. fst sp = k) scored"
    unfolding ranked by (simp add: py_sort_reverse_stable)
  ultimately show ?thesis using sorted zip by simp
qed

text \<open>The witness: three papers with the similarities \<open>1/2\<close>, \<open>9/10\<close> and \<open>1/2\<close>; the
  embeddings are numbers and the cosine is their product.\<close>

theorem rank_papers_sorted_stable_witness:
  "rank_papers (\<lambda>a b. a * b) (1::real) [1/2, 9/10, 1/2] [JStr ''a'', JStr ''b'', JStr ''c'']
     = Inr [(9/10, JStr ''b''), (1/2, JStr ''a''), (1/2, JStr ''c'')]
   \<and> fst ([(9/10::real, JStr ''b''), (1/2, JStr ''a''), (1/2, JStr ''c'')] ! 0)
       \<ge> fst ([(9/10::real, JStr ''b''), (1/2, JStr ''a''), (1/2, JStr ''c'')] ! 1)
   \<and> fst ([(9/10::real, JStr ''b''), (1/2, JStr ''a''), (1/2, JStr ''c'')] ! 1)
       \<ge> fst ([(9/10::real, JStr ''b''), (1/2, JStr ''a''), (1/2, JStr ''c'')] ! 2)
   \<and> filter (\<lambda>sp. fst sp = 1/2) [(9/10::real, JStr ''b''), (1/2, JStr ''a''), (1/2, JStr ''c'')]
       = filter (\<lambda>sp. fst sp = 1/2)
           (zip (map (\<lambda>b. 1 * b) [1/2, 9/10, 1/2]) [JStr ''a'', JStr ''b'', JStr ''c''])"
proof -
  let ?ranked = "[(9/10::real, JStr ''b''), (1/2, JStr ''a''), (1/2, JStr ''c'')]"
  have run: "rank_papers (\<lambda>a b. a * b) (1::real) [1/2, 9/10, 1/2]
               [JStr ''a'', JStr ''b'', JStr ''c''] = Inr ?ranked"
    by (simp add: rank_papers_def py_sort_reverse_def bind_exn_def)
  from rank_papers_sorted_stable [OF run]
  have "(\<forall>i. Suc i < length ?ranked \<longrightarrow> fst (?ranked ! i) \<ge> fst (?ranked ! Suc i))"
    and stable: "\<forall>k. filter (\<lambda>sp. fst sp = k) ?ranked
           = filter (\<lambda>sp. fst sp = k)
               (zip (map (\<lambda>b. 1 * b) [1/2, 9/10, 1/2]) [JStr ''a'', JStr ''b'', JStr ''c''])"
    by blast+
  then have "fst (?ranked ! 0) \<ge> fst (?ranked ! Suc 0)"
    and "fst (?ranked ! Suc 0) \<ge> fst (?ranked ! Suc (Suc 0))"
    by simp_all
  with run stable show ?thesis
    by (simp add: numeral_2_eq_2)
qed

section \<open>The keyword highlighter (lines 66-69)\<close>

text \<open>
  \<^verbatim>\<open>highlight_keywords\<close> substitutes, for one keyword after the other, the regular
  expression \<^verbatim>\<open>(?i)\b(WORD)\b\<close>, where \<^verbatim>\<open>WORD\<close> is the escaped keyword and so matches
  the keyword literally. On ASCII text \<^verbatim>\<open>\w\<close> is a letter, a digit or the underscore,
  \<^verbatim>\<open>\b\<close> is a position with a word character on exactly one side, and \<^verbatim>\<open>(?i)\<close>
  compares letters without their case.
\<close>

definition is_word_char :: "char \<Rightarrow> bool" where
  "is_word_char c =
     (let n = (of_char c :: nat)
      in (48 \<le> n \<and> n \<le> 57) \<or> (65 \<le> n \<and> n \<le> 90) \<or> (97 \<le> n \<and> n \<le> 122) \<or> n = 95)"

definition lower_char :: "char \<Rightarrow> char" where
  "lower_char c =
     (let n = (of_char c :: nat) in if 65 \<le> n \<and> n \<le> 90 then char_of (n + 32) else c)"

text \<open>\<^verbatim>\<open>\b\<close> between the character on the left and the one on the right (\<open>None\<close> at
  either end of the text).\<close>

definition at_boundary :: "char option \<Rightarrow> char option \<Rightarrow> bool" where
  "at_boundary left right =
     ((case left of None \<Rightarrow> False | Some c \<Rightarrow> is_word_char c)
      \<noteq> (case right of None \<Rightarrow> False | Some c \<Rightarrow> is_word_char c))"

definition char_at :: "string \<Rightarrow> nat \<Rightarrow> char option" where
  "char_at s i = (if i < length s then Some (s ! i) else None)"

definition char_before :: "char option \<Rightarrow> string \<Rightarrow> char option" where
  "char_before prev s = (if s = [] then prev else Some (last s))"

text \<open>The expression matches at the head of \<open>text\<close>, which \<open>prev\<close> precedes.\<close>

definition match_at :: "string \<Rightarrow> char option \<Rightarrow> string \<Rightarrow> bool" where
  "match_at word prev text =
     (at_boundary prev (char_at text 0)
      \<and> length word \<le> length text
      \<and> map lower_char (take (length word) text) = map lower_char word
      \<and> at_boundary (char_before prev (take (length word) text)) (char_at text (length word)))"

text \<open>The replacement
  \<^verbatim>\<open><span style='background-color: #ffff66'><b>\1</b></span>\<close> around the matched text.\<close>

definition span_open :: string where
  "span_open = ''<span style='' @ [CHR 0x27] @ ''background-color: #ffff66'' @ [CHR 0x27] @ ''>''"

definition emphasis :: "string \<Rightarrow> string" where
  "emphasis m = span_open @ ''<b>'' @ m @ ''</b></span>''"

text \<open>\<^verbatim>\<open>re.sub\<close> for this expression: the matches are taken from left to right and do not
  overlap; an empty keyword matches the empty string at every boundary.\<close>

function re_sub_word :: "string \<Rightarrow> char option \<Rightarrow> string \<Rightarrow> string" where
  "re_sub_word word prev text =
     (if match_at word prev text then
        (if word = [] then
           (case text of
              [] \<Rightarrow> emphasis []
            | c # cs \<Rightarrow> emphasis [] @ c # re_sub_word word (Some c) cs)
         else emphasis (take (length word) text)
                @ re_sub_word word (Some (last (take (length word) text)))
                    (drop (length word) text))
      else
        (case text of
           [] \<Rightarrow> []
         | c # cs \<Rightarrow> c # re_sub_word word (Some c) cs))"
  by pat_completeness auto
termination
  by (relation "measure (\<lambda>(word, prev, text). length text)")
    (auto simp: match_at_def neq_Nil_conv)

declare re_sub_word.simps [simp del]

fun highlight_keywords :: "string \<Rightarrow> string list \<Rightarrow> string" where
  "highlight_keywords text [] = text"
| "highlight_keywords text (word # keywords) =
     highlight_keywords (re_sub_word word None text) keywords"

text \<open>
  \<^bold>\<open>C7.\<close> With no keyword the highlighter returns its text unchanged.
\<close>

theorem highlight_keywords_no_keywords: "highlight_keywords text [] = text"
  by simp

theorem highlight_keywords_no_keywords_witness:
  "highlight_keywords ''Deep learning'' [] = ''Deep learning''"
  using highlight_keywords_no_keywords [of "''Deep learning''"] .

text \<open>The keyword \<^verbatim>\<open>learn\<close> does not match inside \<^verbatim>\<open>learning\<close>, and a whole word is
  wrapped in its own case.\<close>

lemma highlight_learn_learning: "highlight_keywords ''learning'' [''learn''] = ''learning''"
  by code_simp

lemma highlight_whole_word:
  "highlight_keywords ''Deep learning'' [''deep''] = emphasis ''Deep'' @ '' learning''"
  by code_simp

text \<open>In general, a match of a keyword made of word characters is a whole word: the
  character before it and the character after it are not word characters. A text in
  which the keyword matches nowhere is returned unchanged.\<close>

lemma is_word_char_lower: "is_word_char (lower_char c) = is_word_char c"
  by (auto simp: is_word_char_def lower_char_def Let_def)

lemma match_at_whole_word:
  assumes "match_at word prev text" and "word \<noteq> []" and "\<forall>c \<in> set word. is_word_char c"
  shows "(\<forall>c. prev = Some c \<longrightarrow> \<not> is_word_char c)
       \<and> (\<forall>c. char_at text (length word) = Some c \<longrightarrow> \<not> is_word_char c)"
proof -
  from assms(1) have len: "length word \<le> length text"
    and eq: "map lower_char (take (length word) text) = map lower_char word"
    and left: "at_boundary prev (char_at text 0)"
    and right: "at_boundary (char_before prev (take (length word) text))
                  (char_at text (length word))"
    by (simp_all add: match_at_def)
  from assms(2) len have pos: "0 < length word" "0 < length text" by auto
  have word_at: "is_word_char (text ! i)" if "i < length word" for i
  proof -
    from eq that len have "lower_char (text ! i) = lower_char (word ! i)"
      by (metis length_map nth_map nth_take)
    moreover from assms(3) that have "is_word_char (word ! i)" by simp
    ultimately show ?thesis by (metis is_word_char_lower)
  qed
  from word_at [of 0] pos left have "\<forall>c. prev = Some c \<longrightarrow> \<not> is_word_char c"
    by (auto simp: at_boundary_def char_at_def split: option.splits)
  moreover have "last (take (length word) text) = text ! (length word - 1)"
    using pos len by (simp add: last_conv_nth min_def)
  with word_at [of "length word - 1"] pos len right
  have "\<forall>c. char_at text (length word) = Some c \<longrightarrow> \<not> is_word_char c"
    by (auto simp: at_boundary_def char_before_def split: option.splits)
  ultimately show ?thesis by blast
qed

text \<open>The expression matches somewhere in the text.\<close>

fun matches_somewhere :: "string \<Rightarrow> char option \<Rightarrow> string \<Rightarrow> bool" where
  "matches_somewhere word prev [] = match_at word prev []"
| "matches_somewhere word prev (c # cs) =
     (match_at word prev (c # cs) \<or> matches_somewhere word (Some c) cs)"

lemma re_sub_word_unchanged:
  "\<not> matches_somewhere word prev text \<Longrightarrow> re_sub_word word prev text = text"
  by (induction "text" arbitrary: prev) (simp_all add: re_sub_word.simps)

text \<open>
  \<^bold>\<open>C6.\<close> The keywords are substituted one after the other, each in the output of the
  one before, so a later keyword also matches inside the markup that an earlier one
  inserted. For the title \<^verbatim>\<open>Vitamin B\<close> and the query \<^verbatim>\<open>vitamin b\<close> the keyword
  \<^verbatim>\<open>b\<close> is wrapped inside the tags \<^verbatim>\<open><b>\<close> and \<^verbatim>\<open></b>\<close> put around
  \<^verbatim>\<open>Vitamin\<close>: the result is not the text with its two whole-word occurrences wrapped.
\<close>

theorem highlight_keywords_rewrites_markup:
  "highlight_keywords ''Vitamin B'' [''vitamin'', ''b'']
     = span_open @ ''<'' @ emphasis ''b'' @ ''>Vitamin</'' @ emphasis ''b'' @ ''></span> ''
         @ emphasis ''B''
   \<and> highlight_keywords ''Vitamin B'' [''vitamin'', ''b'']
       \<noteq> emphasis ''Vitamin'' @ '' '' @ emphasis ''B''"
  by code_simp

section \<open>Strings\<close>

text \<open>\<^verbatim>\<open>str.isspace\<close>, \<^verbatim>\<open>str.strip\<close>, \<^verbatim>\<open>str.lower\<close> and \<^verbatim>\<open>str.split\<close> on ASCII
  text.\<close>

definition py_isspace :: "char \<Rightarrow> bool" where
  "py_isspace c = (let n = (of_char c :: nat) in (9 \<le> n \<and> n \<le> 13) \<or> (28 \<le> n \<and> n \<le> 32))"

definition py_strip :: "string \<Rightarrow> string" where
  "py_strip s = rev (dropWhile py_isspace (rev (dropWhile py_isspace s)))"

definition py_lower :: "string \<Rightarrow> string" where
  "py_lower s = map lower_char s"

fun split_words :: "string \<Rightarrow> string \<Rightarrow> string list" where
  "split_words cur [] = (if cur = [] then [] else [cur])"
| "split_words cur (c # cs) =
     (if py_isspace c then (if cur = [] then split_words [] cs else cur # split_words [] cs)
      else split_words (cur @ [c]) cs)"

definition py_split :: "string \<Rightarrow> string list" where
  "py_split s = split_words [] s"

text \<open>\<^verbatim>\<open>str(n)\<close> of an integer, for the arXiv URL.\<close>

definition digit_char :: "nat \<Rightarrow> char" where
  "digit_char d = char_of (48 + d)"

function str_nat :: "nat \<Rightarrow> string" where
  "str_nat n = (if n < 10 then [digit_char n] else str_nat (n div 10) @ [digit_char (n mod 10)])"
  by pat_completeness auto
termination
  by (relation "measure id") auto

declare str_nat.simps [simp del]

definition py_str_int :: "int \<Rightarrow> string" where
  "py_str_int i = (if i < 0 then CHR ''-'' # str_nat (nat (- i)) else str_nat (nat i))"

text \<open>
  \<^verbatim>\<open>int(s)\<close> is a parameter of the world (below). \<open>decimal_int\<close> is what CPython
  3.11 computes for a string of characters below 256: it skips the whitespace around the
  number, which for \<^verbatim>\<open>int\<close> is the code points 9 to 13 and 32 and, beyond ASCII, 133
  and 160 (but not 28 to 31, which \<^verbatim>\<open>str.strip\<close> removes); it reads an optional sign
  and decimal digits with single underscores between them; it accepts at most 4300
  digits; in every other case it raises \<^verbatim>\<open>ValueError\<close>. The worlds of the concrete
  runs below use it.
\<close>

definition int_isspace :: "char \<Rightarrow> bool" where
  "int_isspace c =
     (let n = (of_char c :: nat) in (9 \<le> n \<and> n \<le> 13) \<or> n = 32 \<or> n = 133 \<or> n = 160)"

definition is_digit :: "char \<Rightarrow> bool" where
  "is_digit c = (let n = (of_char c :: nat) in 48 \<le> n \<and> n \<le> 57)"

fun int_literal_ok :: "string \<Rightarrow> bool" where
  "int_literal_ok [] = False"
| "int_literal_ok [c] = is_digit c"
| "int_literal_ok (c # d # cs) =
     (is_digit c \<and> (if d = CHR ''_'' then int_literal_ok cs else int_literal_ok (d # cs)))"

definition digits_value :: "string \<Rightarrow> nat" where
  "digits_value ds = foldl (\<lambda>acc c. 10 * acc + (of_char c - 48)) 0 (filter is_digit ds)"

definition decimal_int :: "string \<Rightarrow> exn + int" where
  "decimal_int s =
     (let t = rev (dropWhile int_isspace (rev (dropWhile int_isspace s)));
          signed = (t \<noteq> [] \<and> (hd t = CHR ''-'' \<or> hd t = CHR ''+''));
          body = (if signed then tl t else t)
      in if int_literal_ok body \<and> length (filter is_digit body) \<le> 4300
         then Inr (if signed \<and> hd t = CHR ''-'' then - int (digits_value body)
                   else int (digits_value body))
         else Inl ValueError)"

text \<open>\<^verbatim>\<open>",".join(ids)\<close>: the operand is iterated, and every item has to be a string. A
  list gives its elements, a string its characters, a dictionary its keys.\<close>

fun join_strings :: "string \<Rightarrow> string list \<Rightarrow> string" where
  "join_strings sep [] = []"
| "join_strings sep [x] = x"
| "join_strings sep (x # y # ys) = x @ sep @ join_strings sep (y # ys)"

fun str_items :: "jval list \<Rightarrow> exn + string list" where
  "str_items [] = Inr []"
| "str_items (JStr x # vs) = bind_exn (str_items vs) (\<lambda>xs. Inr (x # xs))"
| "str_items (_ # vs) = Inl TypeError"

fun py_join :: "string \<Rightarrow> jval \<Rightarrow> exn + string" where
  "py_join sep (JArr vs) = bind_exn (str_items vs) (\<lambda>xs. Inr (join_strings sep xs))"
| "py_join sep (JStr x) = Inr (join_strings sep (map (\<lambda>c. [c]) x))"
| "py_join sep (JObj kvs) = Inr (join_strings sep (map fst kvs))"
| "py_join sep _ = Inl TypeError"

text \<open>\<^verbatim>\<open>xs[i]\<close> on a list.\<close>

definition py_index :: "'a list \<Rightarrow> nat \<Rightarrow> exn + 'a" where
  "py_index xs i = (if i < length xs then Inr (xs ! i) else Inl IndexError)"

section \<open>XML elements\<close>

text \<open>An \<^verbatim>\<open>xml.etree.ElementTree.Element\<close>: its tag, its \<^verbatim>\<open>text\<close> (which is
  \<^verbatim>\<open>None\<close> for an element without text) and its children.\<close>

datatype xml = Element (elem_tag: string) (elem_text: "string option") (elem_children: "xml list")

text \<open>All elements below an element, in document order.\<close>

fun descendants :: "xml \<Rightarrow> xml list" where
  "descendants (Element t x cs) = concat (map (\<lambda>c. c # descendants c) cs)"

definition first_of :: "'a list \<Rightarrow> 'a option" where
  "first_of xs = (case xs of [] \<Rightarrow> None | x # _ \<Rightarrow> Some x)"

text \<open>\<^verbatim>\<open>findall("tag")\<close> and \<^verbatim>\<open>find("tag")\<close>: the children with the tag.\<close>

definition findall_children :: "xml \<Rightarrow> string \<Rightarrow> xml list" where
  "findall_children e t = filter (\<lambda>c. elem_tag c = t) (elem_children e)"

definition find_child :: "xml \<Rightarrow> string \<Rightarrow> xml option" where
  "find_child e t = first_of (findall_children e t)"

text \<open>\<^verbatim>\<open>findall(".//tag")\<close> and \<^verbatim>\<open>find(".//tag")\<close>: the descendants with the tag.\<close>

definition findall_desc :: "xml \<Rightarrow> string \<Rightarrow> xml list" where
  "findall_desc e t = filter (\<lambda>d. elem_tag d = t) (descendants e)"

definition find_desc :: "xml \<Rightarrow> string \<Rightarrow> xml option" where
  "find_desc e t = first_of (findall_desc e t)"

text \<open>\<^verbatim>\<open>find(".//outer/inner")\<close>: the children tagged \<open>inner\<close> of the descendants tagged
  \<open>outer\<close>.\<close>

definition find_desc_child :: "xml \<Rightarrow> string \<Rightarrow> string \<Rightarrow> xml option" where
  "find_desc_child e outer inner =
     first_of (concat (map (\<lambda>d. findall_children d inner) (findall_desc e outer)))"

text \<open>\<^verbatim>\<open>elem.text\<close> and \<^verbatim>\<open>elem.text.strip()\<close> on the result of a \<^verbatim>\<open>find\<close>: both raise
  \<^verbatim>\<open>AttributeError\<close> on \<^verbatim>\<open>None\<close>.\<close>

definition text_of :: "xml option \<Rightarrow> exn + string option" where
  "text_of found = (case found of None \<Rightarrow> Inl AttributeError | Some e \<Rightarrow> Inr (elem_text e))"

definition stripped_text_of :: "xml option \<Rightarrow> exn + string" where
  "stripped_text_of found =
     bind_exn (text_of found)
       (\<lambda>t. case t of None \<Rightarrow> Inl AttributeError | Some x \<Rightarrow> Inr (py_strip x))"

definition text_value :: "xml \<Rightarrow> jval" where
  "text_value e = (case elem_text e of None \<Rightarrow> JNull | Some x \<Rightarrow> JStr x)"

section \<open>The outside world and the session\<close>

text \<open>
  A request is the URL, the \<^verbatim>\<open>params\<close> dictionary and the timeout given to
  \<^verbatim>\<open>requests.get\<close>. A response is its status code together with what
  \<^verbatim>\<open>response.json()\<close> and \<^verbatim>\<open>ET.fromstring\<close> make of its body.
\<close>

datatype request = Get string "(string \<times> jval) list" nat

record response =
  resp_status :: nat
  resp_json :: "exn + jval"
  resp_xml :: "exn + xml"

definition raise_for_status :: "response \<Rightarrow> exn + unit" where
  "raise_for_status r = (if 400 \<le> resp_status r \<and> resp_status r < 600 then Inl HTTPError else Inr ())"

text \<open>
  What the program does not contain is a parameter: the network, which answers (or
  raises) per request and may answer the same request differently later in the session,
  the embedding model, the cosine similarity, \<^verbatim>\<open>datetime.strptime(...).year\<close> for the
  format \<^verbatim>\<open>%Y-%m-%dT%H:%M:%SZ\<close>, the built-in \<^verbatim>\<open>int\<close> applied to a string, and
  the string that an f-string makes of a value.
\<close>

record 'v world =
  requests_get :: "nat \<Rightarrow> request \<Rightarrow> exn + response"
  model_encode :: "string \<Rightarrow> 'v"
  pytorch_cos_sim :: "'v \<Rightarrow> 'v \<Rightarrow> real"
  strptime_year :: "string \<Rightarrow> exn + int"
  py_int :: "string \<Rightarrow> exn + int"
  py_format :: "jval \<Rightarrow> string"

datatype source = SemanticScholar | Arxiv | PubMed

text \<open>The message that an adapter shows with \<^verbatim>\<open>st.error\<close>.\<close>

datatype diag = Source_error source exn

text \<open>
  The session: how many requests were issued and how often the model ran, and the four
  caches of \<^verbatim>\<open>st.cache_data\<close>, keyed by the arguments of the decorated function. A
  cached entry holds the returned value and the messages shown while it was computed,
  which Streamlit replays on a hit.
\<close>

record 'v session =
  net_calls :: nat
  model_runs :: nat
  ss_cache :: "string \<times> int \<rightharpoonup> diag list \<times> jval"
  arxiv_cache :: "string \<times> int \<rightharpoonup> diag list \<times> jval list"
  pubmed_cache :: "string \<times> int \<rightharpoonup> diag list \<times> jval list"
  embed_cache :: "string list \<rightharpoonup> 'v list"

type_synonym ('a, 'v) action = "'v session \<Rightarrow> (exn + 'a) \<times> 'v session"

definition ret :: "'a \<Rightarrow> ('a, 'v) action" where
  "ret x s = (Inr x, s)"

definition lift :: "exn + 'a \<Rightarrow> ('a, 'v) action" where
  "lift r s = (r, s)"

definition bind_action :: "('a, 'v) action \<Rightarrow> ('a \<Rightarrow> ('b, 'v) action) \<Rightarrow> ('b, 'v) action" where
  "bind_action m f s = (case m s of (Inl e, s') \<Rightarrow> (Inl e, s') | (Inr x, s') \<Rightarrow> f x s')"

text \<open>\<^verbatim>\<open>try: ... except Exception as e: ...\<close>\<close>

definition try_except :: "('a, 'v) action \<Rightarrow> (exn \<Rightarrow> ('a, 'v) action) \<Rightarrow> ('a, 'v) action" where
  "try_except body handler s =
     (case body s of (Inl e, s') \<Rightarrow> handler e s' | (Inr x, s') \<Rightarrow> (Inr x, s'))"

text \<open>\<^verbatim>\<open>@st.cache_data\<close>: a stored entry is returned without running the function; a
  returned value is stored under the arguments.\<close>

definition cache_data ::
  "('v session \<Rightarrow> 'k \<rightharpoonup> 'r) \<Rightarrow> ((('k \<rightharpoonup> 'r) \<Rightarrow> ('k \<rightharpoonup> 'r)) \<Rightarrow> 'v session \<Rightarrow> 'v session)
     \<Rightarrow> 'k \<Rightarrow> ('r, 'v) action \<Rightarrow> ('r, 'v) action"
where
  "cache_data lookup update key f s =
     (case lookup s key of
        Some r \<Rightarrow> (Inr r, s)
      | None \<Rightarrow>
          (case f s of
             (Inl e, s') \<Rightarrow> (Inl e, s')
           | (Inr r, s') \<Rightarrow> (Inr r, update (\<lambda>c. c(key \<mapsto> r)) s')))"

definition http_get :: "'v world \<Rightarrow> request \<Rightarrow> (response, 'v) action" where
  "http_get w req s = (requests_get w (net_calls s) req, s\<lparr>net_calls := Suc (net_calls s)\<rparr>)"

section \<open>The Semantic Scholar adapter (lines 71-81)\<close>

definition ss_try :: "'v world \<Rightarrow> string \<Rightarrow> int \<Rightarrow> (jval, 'v) action" where
  "ss_try w query limit =
     bind_action
       (http_get w
          (Get ''https://api.semanticscholar.org/graph/v1/paper/search''
             [(''query'', JStr query), (''limit'', JInt limit),
              (''fields'', JStr ''title,abstract,url,year'')] 10))
       (\<lambda>response. lift
          (bind_exn (raise_for_status response) (\<lambda>_.
           bind_exn (resp_json response) (\<lambda>body.
           py_get_default body ''data'' (JArr [])))))"

definition search_semantic_scholar_fn ::
  "'v world \<Rightarrow> string \<Rightarrow> int \<Rightarrow> (diag list \<times> jval, 'v) action"
where
  "search_semantic_scholar_fn w query limit =
     try_except (bind_action (ss_try w query limit) (\<lambda>data. ret ([], data)))
       (\<lambda>e. ret ([Source_error SemanticScholar e], JArr []))"

definition search_semantic_scholar ::
  "'v world \<Rightarrow> string \<Rightarrow> int \<Rightarrow> (diag list \<times> jval, 'v) action"
where
  "search_semantic_scholar w query limit =
     cache_data ss_cache ss_cache_update (query, limit) (search_semantic_scholar_fn w query limit)"

section \<open>The arXiv adapter (lines 83-102)\<close>

definition atom :: "string \<Rightarrow> string" where
  "atom name = ''{http://www.w3.org/2005/Atom}'' @ name"

definition arxiv_entry :: "'v world \<Rightarrow> xml \<Rightarrow> exn + jval" where
  "arxiv_entry w entry =
     bind_exn (stripped_text_of (find_child entry (atom ''title''))) (\<lambda>title.
     bind_exn (stripped_text_of (find_child entry (atom ''summary''))) (\<lambda>abstract.
     bind_exn (stripped_text_of (find_child entry (atom ''id''))) (\<lambda>url.
     bind_exn (text_of (find_child entry (atom ''published''))) (\<lambda>published.
     bind_exn (case published of None \<Rightarrow> Inl TypeError | Some p \<Rightarrow> strptime_year w p) (\<lambda>year.
     Inr (JObj [(''title'', JStr title), (''abstract'', JStr abstract),
                (''url'', JStr url), (''year'', JInt year)]))))))"

fun arxiv_entries :: "'v world \<Rightarrow> xml list \<Rightarrow> exn + jval list" where
  "arxiv_entries w [] = Inr []"
| "arxiv_entries w (entry # entries) =
     bind_exn (arxiv_entry w entry) (\<lambda>paper.
     bind_exn (arxiv_entries w entries) (\<lambda>papers. Inr (paper # papers)))"

definition arxiv_try :: "'v world \<Rightarrow> string \<Rightarrow> int \<Rightarrow> (jval list, 'v) action" where
  "arxiv_try w query max_results =
     bind_action
       (http_get w
          (Get (''http://export.arxiv.org/api/query?search_query=all:'' @ query
                  @ ''&start=0&max_results='' @ py_str_int max_results) [] 10))
       (\<lambda>response. lift
          (bind_exn (raise_for_status response) (\<lambda>_.
           bind_exn (resp_xml response) (\<lambda>root.
           arxiv_entries w (findall_children root (atom ''entry''))))))"

definition search_arxiv_fn ::
  "'v world \<Rightarrow> string \<Rightarrow> int \<Rightarrow> (diag list \<times> jval list, 'v) action"
where
  "search_arxiv_fn w query max_results =
     try_except (bind_action (arxiv_try w query max_results) (\<lambda>papers. ret ([], papers)))
       (\<lambda>e. ret ([Source_error Arxiv e], []))"

definition search_arxiv ::
  "'v world \<Rightarrow> string \<Rightarrow> int \<Rightarrow> (diag list \<times> jval list, 'v) action"
where
  "search_arxiv w query max_results =
     cache_data arxiv_cache arxiv_cache_update (query, max_results)
       (search_arxiv_fn w query max_results)"

section \<open>The PubMed adapter (lines 104-138)\<close>

text \<open>One pass of the loop over the articles: the year and the PMID are read first, then
  an article without title or abstract is skipped (\<open>None\<close>).\<close>

definition pubmed_article :: "'v world \<Rightarrow> xml \<Rightarrow> exn + jval option" where
  "pubmed_article w article =
     (let title_elem = find_desc article ''ArticleTitle'';
          abstract_elem = find_desc_child article ''Abstract'' ''AbstractText'';
          date_elem = find_desc_child article ''PubDate'' ''Year''
      in bind_exn
           (case date_elem of
              None \<Rightarrow> Inr JNull
            | Some d \<Rightarrow>
                (case elem_text d of
                   None \<Rightarrow> Inl TypeError
                 | Some t \<Rightarrow> bind_exn (py_int w t) (\<lambda>y. Inr (JInt y))))
           (\<lambda>year.
         bind_exn (text_of (find_desc article ''PMID'')) (\<lambda>pmid.
           case (title_elem, abstract_elem) of
             (Some t, Some a) \<Rightarrow>
               Inr (Some (JObj
                 [(''title'', text_value t),
                  (''abstract'', text_value a),
                  (''url'', JStr (''https://pubmed.ncbi.nlm.nih.gov/''
                              @ (case pmid of None \<Rightarrow> ''None'' | Some x \<Rightarrow> x) @ ''/'')),
                  (''year'', year)]))
           | _ \<Rightarrow> Inr None)))"

fun pubmed_articles :: "'v world \<Rightarrow> xml list \<Rightarrow> exn + jval list" where
  "pubmed_articles w [] = Inr []"
| "pubmed_articles w (article # articles) =
     bind_exn (pubmed_article w article) (\<lambda>paper.
     bind_exn (pubmed_articles w articles) (\<lambda>papers.
       Inr (case paper of None \<Rightarrow> papers | Some p \<Rightarrow> p # papers)))"

text \<open>The first request and what is read from its answer:
  \<^verbatim>\<open>search_resp.json()["esearchresult"]["idlist"]\<close>.\<close>

definition pubmed_search_ids :: "'v world \<Rightarrow> string \<Rightarrow> int \<Rightarrow> (jval, 'v) action" where
  "pubmed_search_ids w query max_results =
     bind_action
       (http_get w
          (Get ''https://eutils.ncbi.nlm.nih.gov/entrez/eutils/esearch.fcgi''
             [(''db'', JStr ''pubmed''), (''term'', JStr query),
              (''retmax'', JInt max_results), (''retmode'', JStr ''json'')] 10))
       (\<lambda>search_resp. lift
          (bind_exn (raise_for_status search_resp) (\<lambda>_.
           bind_exn (resp_json search_resp) (\<lambda>body.
           bind_exn (py_getitem body ''esearchresult'') (\<lambda>result.
           py_getitem result ''idlist'')))))"

text \<open>The second request, for the joined identifiers, and the parsed XML of its answer.\<close>

definition pubmed_fetch_root :: "'v world \<Rightarrow> jval \<Rightarrow> (xml, 'v) action" where
  "pubmed_fetch_root w ids =
     bind_action (lift (py_join '','' ids)) (\<lambda>joined.
     bind_action
       (http_get w
          (Get ''https://eutils.ncbi.nlm.nih.gov/entrez/eutils/efetch.fcgi''
             [(''db'', JStr ''pubmed''), (''id'', JStr joined), (''retmode'', JStr ''xml'')] 10))
       (\<lambda>fetch_resp. lift
          (bind_exn (raise_for_status fetch_resp) (\<lambda>_. resp_xml fetch_resp))))"

definition pubmed_try :: "'v world \<Rightarrow> string \<Rightarrow> int \<Rightarrow> (jval list, 'v) action" where
  "pubmed_try w query max_results =
     bind_action (pubmed_search_ids w query max_results) (\<lambda>ids.
     if \<not> truthy ids then ret []
     else
       bind_action (pubmed_fetch_root w ids) (\<lambda>root.
       lift (pubmed_articles w (findall_desc root ''PubmedArticle''))))"

definition search_pubmed_fn ::
  "'v world \<Rightarrow> string \<Rightarrow> int \<Rightarrow> (diag list \<times> jval list, 'v) action"
where
  "search_pubmed_fn w query max_results =
     try_except (bind_action (pubmed_try w query max_results) (\<lambda>papers. ret ([], papers)))
       (\<lambda>e. ret ([Source_error PubMed e], []))"

definition search_pubmed ::
  "'v world \<Rightarrow> string \<Rightarrow> int \<Rightarrow> (diag list \<times> jval list, 'v) action"
where
  "search_pubmed w query max_results =
     cache_data pubmed_cache pubmed_cache_update (query, max_results)
       (search_pubmed_fn w query max_results)"

section \<open>The embedder (lines 140-142) and \<^verbatim>\<open>main\<close> (lines 144-201)\<close>

text \<open>\<^verbatim>\<open>model.encode\<close> returns one vector per text, in the order of the texts.\<close>

definition embed_texts_fn :: "'v world \<Rightarrow> string list \<Rightarrow> ('v list, 'v) action" where
  "embed_texts_fn w texts s = (Inr (map (model_encode w) texts), s\<lparr>model_runs := Suc (model_runs s)\<rparr>)"

definition embed_texts :: "'v world \<Rightarrow> string list \<Rightarrow> ('v list, 'v) action" where
  "embed_texts w texts = cache_data embed_cache embed_cache_update texts (embed_texts_fn w texts)"

text \<open>\<^verbatim>\<open>[f"{p['title']}. {p['abstract']}" for p in filtered_papers]\<close>\<close>

fun paper_texts :: "'v world \<Rightarrow> jval list \<Rightarrow> exn + string list" where
  "paper_texts w [] = Inr []"
| "paper_texts w (p # ps) =
     bind_exn (py_getitem p ''title'') (\<lambda>title.
     bind_exn (py_getitem p ''abstract'') (\<lambda>abstract.
     bind_exn (paper_texts w ps) (\<lambda>texts.
       Inr ((py_format w title @ ''. '' @ py_format w abstract) # texts))))"

text \<open>\<^verbatim>\<open>highlight_keywords\<close> on a field of a paper: \<^verbatim>\<open>re.sub\<close> raises \<^verbatim>\<open>TypeError\<close> on a
  value that is not a string.\<close>

fun highlight_value :: "jval \<Rightarrow> string list \<Rightarrow> exn + jval" where
  "highlight_value v [] = Inr v"
| "highlight_value (JStr text) keywords = Inr (JStr (highlight_keywords text keywords))"
| "highlight_value _ keywords = Inl TypeError"

text \<open>\<^verbatim>\<open>value[:1000]\<close>\<close>

fun slice_1000 :: "jval \<Rightarrow> exn + jval" where
  "slice_1000 (JStr x) = Inr (JStr (take 1000 x))"
| "slice_1000 (JArr xs) = Inr (JArr (take 1000 xs))"
| "slice_1000 _ = Inl TypeError"

text \<open>What the display loop shows of one paper: the colour of its tier, the highlighted
  title, the link, the year, the similarity and the first 1000 characters of the
  highlighted abstract.\<close>

record card =
  card_color :: string
  card_title :: jval
  card_url :: jval
  card_year :: jval
  card_similarity :: real
  card_abstract :: jval

definition tier_color :: "real \<Rightarrow> string" where
  "tier_color similarity =
     (if similarity \<ge> 75 / 100 then ''green'' else if similarity \<ge> 4 / 10 then ''orange'' else ''red'')"

definition render_paper :: "string list \<Rightarrow> real \<times> jval \<Rightarrow> exn + card" where
  "render_paper query_keywords sp =
     (case sp of (similarity, paper) \<Rightarrow>
        bind_exn (py_getitem paper ''title'') (\<lambda>title.
        bind_exn (highlight_value title query_keywords) (\<lambda>highlighted_title.
        bind_exn (py_getitem paper ''abstract'') (\<lambda>abstract.
        bind_exn (highlight_value abstract query_keywords) (\<lambda>highlighted_abstract.
        bind_exn (py_getitem paper ''url'') (\<lambda>url.
        bind_exn (py_getitem paper ''year'') (\<lambda>year.
        bind_exn (slice_1000 highlighted_abstract) (\<lambda>shown_abstract.
          Inr \<lparr>card_color = tier_color similarity, card_title = highlighted_title,
               card_url = url, card_year = year, card_similarity = similarity,
               card_abstract = shown_abstract\<rparr>))))))))"

fun render_papers :: "string list \<Rightarrow> (real \<times> jval) list \<Rightarrow> exn + card list" where
  "render_papers query_keywords [] = Inr []"
| "render_papers query_keywords (sp # sps) =
     bind_exn (render_paper query_keywords sp) (\<lambda>c.
     bind_exn (render_papers query_keywords sps) (\<lambda>cs. Inr (c # cs)))"

text \<open>The rows of the CSV export: title, abstract, year, URL and similarity.\<close>

type_synonym csv_row = "jval \<times> jval \<times> jval \<times> jval \<times> real"

fun csv_rows :: "(real \<times> jval) list \<Rightarrow> exn + csv_row list" where
  "csv_rows [] = Inr []"
| "csv_rows ((s, p) # sps) =
     bind_exn (py_getitem p ''title'') (\<lambda>title.
     bind_exn (py_getitem p ''abstract'') (\<lambda>abstract.
     bind_exn (py_getitem p ''year'') (\<lambda>year.
     bind_exn (py_getitem p ''url'') (\<lambda>url.
     bind_exn (csv_rows sps) (\<lambda>rows. Inr ((title, abstract, year, url, s) # rows))))))"

text \<open>
  What one run of \<^verbatim>\<open>main\<close> leaves on the page: nothing for an empty input, the warning
  for a blank idea, the adapters' messages and the warning that no paper was found, or
  the adapters' messages with the ranked list, its cards and the export.
\<close>

datatype outcome =
    Idle
  | Invalid_idea
  | No_papers "diag list"
  | Ranked "diag list" "(real \<times> jval) list" "card list" "csv_row list"


definition main :: "'v world \<Rightarrow> string \<Rightarrow> int \<Rightarrow> int \<Rightarrow> int \<Rightarrow> (outcome, 'v) action" where
  "main w user_input start_year end_year num_results =
     (if user_input = [] then ret Idle
      else
        let query = py_strip user_input in
        if query = [] then ret Invalid_idea
        else
          let query_keywords = py_split (py_lower query) in
          bind_action (embed_texts w [query]) (\<lambda>query_embeddings.
          bind_action (lift (py_index query_embeddings 0)) (\<lambda>idea_embedding.
          bind_action (search_semantic_scholar w query num_results) (\<lambda>(ss_diags, ss_papers).
          bind_action (search_arxiv w query num_results) (\<lambda>(arxiv_diags, arxiv_papers).
          bind_action (search_pubmed w query num_results) (\<lambda>(pubmed_diags, pubmed_papers).
          bind_action
            (lift (aggregate ss_papers arxiv_papers pubmed_papers start_year end_year))
            (\<lambda>filtered.
          if filtered = [] then ret (No_papers (ss_diags @ arxiv_diags @ pubmed_diags))
          else
            bind_action (lift (paper_texts w filtered)) (\<lambda>texts.
            bind_action (embed_texts w texts) (\<lambda>paper_embeddings.
            lift
              (bind_exn
                 (rank_papers (pytorch_cos_sim w) idea_embedding paper_embeddings filtered)
                 (\<lambda>scored_papers.
               bind_exn (render_papers query_keywords scored_papers) (\<lambda>cards.
               bind_exn (csv_rows scored_papers) (\<lambda>rows.
                 Inr (Ranked (ss_diags @ arxiv_diags @ pubmed_diags)
                        scored_papers cards rows))))))))))))))"

section \<open>The adapters never raise\<close>

lemma try_except_ret:
  "try_except (bind_action body (\<lambda>x. ret (f x))) (\<lambda>e. ret (h e)) s =
     (case body s of (Inl e, s') \<Rightarrow> (Inr (h e), s') | (Inr x, s') \<Rightarrow> (Inr (f x), s'))"
  by (simp add: try_except_def bind_action_def ret_def split: prod.splits sum.splits)

lemma search_semantic_scholar_fn_eq:
  "search_semantic_scholar_fn w query limit s =
     (case ss_try w query limit s of
        (Inl e, s') \<Rightarrow> (Inr ([Source_error SemanticScholar e], JArr []), s')
      | (Inr d, s') \<Rightarrow> (Inr ([], d), s'))"
  unfolding search_semantic_scholar_fn_def by (rule try_except_ret)

lemma search_arxiv_fn_eq:
  "search_arxiv_fn w query limit s =
     (case arxiv_try w query limit s of
        (Inl e, s') \<Rightarrow> (Inr ([Source_error Arxiv e], []), s')
      | (Inr ps, s') \<Rightarrow> (Inr ([], ps), s'))"
  unfolding search_arxiv_fn_def by (rule try_except_ret)

lemma search_pubmed_fn_eq:
  "search_pubmed_fn w query limit s =
     (case pubmed_try w query limit s of
        (Inl e, s') \<Rightarrow> (Inr ([Source_error PubMed e], []), s')
      | (Inr ps, s') \<Rightarrow> (Inr ([], ps), s'))"
  unfolding search_pubmed_fn_def by (rule try_except_ret)

lemma cache_data_total:
  assumes "\<And>s. \<exists>r. fst (f s) = Inr r"
  shows "\<exists>r. fst (cache_data lookup update key f s) = Inr r"
proof (cases "lookup s key")
  case None
  from assms obtain r where "fst (f s) = Inr r" by blast
  with None show ?thesis
    by (cases "f s") (simp add: cache_data_def)
next
  case (Some r)
  then show ?thesis by (simp add: cache_data_def)
qed

lemma search_semantic_scholar_fn_total:
  "\<exists>r. fst (search_semantic_scholar_fn w query limit s) = Inr r"
  by (simp add: search_semantic_scholar_fn_eq split: prod.splits sum.splits)

lemma search_arxiv_fn_total: "\<exists>r. fst (search_arxiv_fn w query limit s) = Inr r"
  by (simp add: search_arxiv_fn_eq split: prod.splits sum.splits)

lemma search_pubmed_fn_total: "\<exists>r. fst (search_pubmed_fn w query limit s) = Inr r"
  by (simp add: search_pubmed_fn_eq split: prod.splits sum.splits)

lemma search_semantic_scholar_total:
  "\<exists>r. fst (search_semantic_scholar w query limit s) = Inr r"
  unfolding search_semantic_scholar_def
  by (rule cache_data_total) (rule search_semantic_scholar_fn_total)

lemma search_arxiv_total: "\<exists>r. fst (search_arxiv w query limit s) = Inr r"
  unfolding search_arxiv_def by (rule cache_data_total) (rule search_arxiv_fn_total)

lemma search_pubmed_total: "\<exists>r. fst (search_pubmed w query limit s) = Inr r"
  unfolding search_pubmed_def by (rule cache_data_total) (rule search_pubmed_fn_total)

text \<open>
  \<^bold>\<open>C3.\<close> In every world and session, for every query and limit, each of the three
  adapters returns a value, with or without its cache; and when the body of its
  \<^verbatim>\<open>try\<close> raises an exception, the adapter returns the empty list together with the
  message about that exception.
\<close>

theorem adapters_catch_exceptions:
  "(\<exists>r. fst (search_semantic_scholar_fn w query limit s) = Inr r)
   \<and> (\<exists>r. fst (search_arxiv_fn w query limit s) = Inr r)
   \<and> (\<exists>r. fst (search_pubmed_fn w query limit s) = Inr r)
   \<and> (\<exists>r. fst (search_semantic_scholar w query limit s) = Inr r)
   \<and> (\<exists>r. fst (search_arxiv w query limit s) = Inr r)
   \<and> (\<exists>r. fst (search_pubmed w query limit s) = Inr r)
   \<and> (\<forall>e. fst (ss_try w query limit s) = Inl e \<longrightarrow>
          fst (search_semantic_scholar_fn w query limit s)
            = Inr ([Source_error SemanticScholar e], JArr []))
   \<and> (\<forall>e. fst (arxiv_try w query limit s) = Inl e \<longrightarrow>
          fst (search_arxiv_fn w query limit s) = Inr ([Source_error Arxiv e], []))
   \<and> (\<forall>e. fst (pubmed_try w query limit s) = Inl e \<longrightarrow>
          fst (search_pubmed_fn w query limit s) = Inr ([Source_error PubMed e], []))"
proof -
  have "fst (search_semantic_scholar_fn w query limit s)
          = Inr ([Source_error SemanticScholar e], JArr [])"
    if "fst (ss_try w query limit s) = Inl e" for e
    using that by (cases "ss_try w query limit s") (simp add: search_semantic_scholar_fn_eq)
  moreover have "fst (search_arxiv_fn w query limit s) = Inr ([Source_error Arxiv e], [])"
    if "fst (arxiv_try w query limit s) = Inl e" for e
    using that by (cases "arxiv_try w query limit s") (simp add: search_arxiv_fn_eq)
  moreover have "fst (search_pubmed_fn w query limit s) = Inr ([Source_error PubMed e], [])"
    if "fst (pubmed_try w query limit s) = Inl e" for e
    using that by (cases "pubmed_try w query limit s") (simp add: search_pubmed_fn_eq)
  moreover note search_semantic_scholar_fn_total [of w query limit s]
    search_arxiv_fn_total [of w query limit s]
    search_pubmed_fn_total [of w query limit s]
    search_semantic_scholar_total [of w query limit s]
    search_arxiv_total [of w query limit s]
    search_pubmed_total [of w query limit s]
  ultimately show ?thesis by blast
qed

text \<open>A session with empty caches, and a world in which every source fails: Semantic
  Scholar cannot be reached, arXiv answers with a body that is not XML, and PubMed answers
  with status 500.\<close>

definition new_session :: "'v session" where
  "new_session =
     \<lparr>net_calls = 0, model_runs = 0, ss_cache = Map.empty, arxiv_cache = Map.empty,
      pubmed_cache = Map.empty, embed_cache = Map.empty\<rparr>"

definition plain_format :: "jval \<Rightarrow> string" where
  "plain_format v = (case v of JStr x \<Rightarrow> x | _ \<Rightarrow> ''None'')"

definition failing_world :: "real world" where
  "failing_world =
     \<lparr>requests_get = (\<lambda>k req. case req of Get url params timeout \<Rightarrow>
          (case params of
             [] \<Rightarrow> Inr \<lparr>resp_status = 200, resp_json = Inl JSONDecodeError,
                       resp_xml = Inl ParseError\<rparr>
           | (key, v) # _ \<Rightarrow>
               if key = ''query'' then Inl RequestException
               else Inr \<lparr>resp_status = 500, resp_json = Inl JSONDecodeError,
                         resp_xml = Inl ParseError\<rparr>)),
      model_encode = (\<lambda>t. real (length t)),
      pytorch_cos_sim = (\<lambda>a b. 1),
      strptime_year = (\<lambda>t. Inl ValueError),
      py_int = decimal_int,
      py_format = plain_format\<rparr>"

theorem adapters_catch_exceptions_witness:
  "fst (ss_try failing_world ''q'' 20 new_session) = Inl RequestException
   \<and> fst (search_semantic_scholar_fn failing_world ''q'' 20 new_session)
       = Inr ([Source_error SemanticScholar RequestException], JArr [])
   \<and> fst (arxiv_try failing_world ''q'' 20 new_session) = Inl ParseError
   \<and> fst (search_arxiv_fn failing_world ''q'' 20 new_session)
       = Inr ([Source_error Arxiv ParseError], [])
   \<and> fst (pubmed_try failing_world ''q'' 20 new_session) = Inl HTTPError
   \<and> fst (search_pubmed_fn failing_world ''q'' 20 new_session)
       = Inr ([Source_error PubMed HTTPError], [])"
proof -
  have ss: "fst (ss_try failing_world ''q'' 20 new_session) = Inl RequestException"
    by (simp add: ss_try_def bind_action_def http_get_def failing_world_def)
  have arxiv: "fst (arxiv_try failing_world ''q'' 20 new_session) = Inl ParseError"
    by (simp add: arxiv_try_def bind_action_def http_get_def failing_world_def lift_def
        raise_for_status_def bind_exn_def)
  have pubmed: "fst (pubmed_try failing_world ''q'' 20 new_session) = Inl HTTPError"
    by (simp add: pubmed_try_def pubmed_search_ids_def bind_action_def http_get_def
        failing_world_def lift_def raise_for_status_def bind_exn_def)
  from adapters_catch_exceptions [of failing_world "''q''" 20 new_session] ss arxiv pubmed
  show ?thesis by simp
qed

section \<open>The articles that the PubMed adapter returns\<close>

text \<open>An article has a title and an abstract; its PMID is present and
  \<^verbatim>\<open>int(date_elem.text)\<close> does not raise for its year; the year and the record that
  the specification gives for it.\<close>

definition has_title_and_abstract :: "xml \<Rightarrow> bool" where
  "has_title_and_abstract a =
     (find_desc a ''ArticleTitle'' \<noteq> None
      \<and> find_desc_child a ''Abstract'' ''AbstractText'' \<noteq> None)"

definition pmid_and_year_readable :: "'v world \<Rightarrow> xml \<Rightarrow> bool" where
  "pmid_and_year_readable w a =
     (find_desc a ''PMID'' \<noteq> None
      \<and> (case find_desc_child a ''PubDate'' ''Year'' of
           None \<Rightarrow> True
         | Some d \<Rightarrow>
             (case elem_text d of
                None \<Rightarrow> False
              | Some t \<Rightarrow> (case py_int w t of Inl e \<Rightarrow> False | Inr y \<Rightarrow> True))))"

definition article_year :: "'v world \<Rightarrow> xml \<Rightarrow> jval" where
  "article_year w a =
     (case find_desc_child a ''PubDate'' ''Year'' of
        None \<Rightarrow> JNull
      | Some d \<Rightarrow>
          (case elem_text d of
             None \<Rightarrow> JNull
           | Some t \<Rightarrow> (case py_int w t of Inl e \<Rightarrow> JNull | Inr y \<Rightarrow> JInt y)))"

definition article_paper :: "'v world \<Rightarrow> xml \<Rightarrow> jval" where
  "article_paper w a =
     JObj [(''title'', case find_desc a ''ArticleTitle'' of None \<Rightarrow> JNull | Some t \<Rightarrow> text_value t),
           (''abstract'', case find_desc_child a ''Abstract'' ''AbstractText'' of
                            None \<Rightarrow> JNull | Some x \<Rightarrow> text_value x),
           (''url'', JStr (''https://pubmed.ncbi.nlm.nih.gov/''
                       @ (case find_desc a ''PMID'' of
                            None \<Rightarrow> ''None''
                          | Some e \<Rightarrow> (case elem_text e of None \<Rightarrow> ''None'' | Some x \<Rightarrow> x))
                       @ ''/'')),
           (''year'', article_year w a)]"

lemma pubmed_article_readable:
  "pmid_and_year_readable w a \<Longrightarrow>
     pubmed_article w a = Inr (if has_title_and_abstract a then Some (article_paper w a) else None)"
  by (auto simp: pmid_and_year_readable_def pubmed_article_def has_title_and_abstract_def
      article_paper_def article_year_def text_of_def bind_exn_def Let_def
      split: option.splits sum.splits)

lemma pubmed_article_unreadable:
  "\<not> pmid_and_year_readable w a \<Longrightarrow> \<exists>e. pubmed_article w a = Inl e"
  by (auto simp: pmid_and_year_readable_def pubmed_article_def text_of_def bind_exn_def Let_def
      split: option.splits sum.splits)

lemma pubmed_articles_readable:
  "\<forall>a \<in> set articles. pmid_and_year_readable w a \<Longrightarrow>
     pubmed_articles w articles
       = Inr (map (article_paper w) (filter has_title_and_abstract articles))"
  by (induction articles) (simp_all add: pubmed_article_readable bind_exn_def)

lemma pubmed_articles_unreadable:
  "a \<in> set articles \<Longrightarrow> \<not> pmid_and_year_readable w a \<Longrightarrow>
     \<exists>e. pubmed_articles w articles = Inl e"
proof (induction articles)
  case Nil
  then show ?case by simp
next
  case (Cons b bs)
  show ?case
  proof (cases "pubmed_article w b")
    case (Inl e)
    then show ?thesis by (simp add: bind_exn_def)
  next
    case (Inr r)
    with pubmed_article_unreadable [of w b] have "pmid_and_year_readable w b" by auto
    with Cons.prems have "a \<in> set bs" by auto
    from Cons.IH [OF this Cons.prems(2)] Inr show ?thesis
      by (auto simp: bind_exn_def)
  qed
qed

lemma pubmed_try_fetched:
  assumes "fst (pubmed_search_ids w query limit s) = Inr ids"
    and "truthy ids"
    and "fst (pubmed_fetch_root w ids (snd (pubmed_search_ids w query limit s))) = Inr tree"
  shows "fst (pubmed_try w query limit s)
           = pubmed_articles w (findall_desc tree ''PubmedArticle'')"
  using assms
  by (cases "pubmed_search_ids w query limit s";
      cases "pubmed_fetch_root w ids (snd (pubmed_search_ids w query limit s))")
    (simp add: pubmed_try_def bind_action_def lift_def)

lemma search_pubmed_fn_fst:
  "fst (search_pubmed_fn w query limit s) =
     (case fst (pubmed_try w query limit s) of
        Inl e \<Rightarrow> Inr ([Source_error PubMed e], [])
      | Inr ps \<Rightarrow> Inr ([], ps))"
  by (simp add: search_pubmed_fn_eq split: prod.splits sum.splits)

text \<open>
  A world in which PubMed answers the search with two identifiers and the fetch with a
  given document, and five articles: a complete one of 2021, one without a date, one
  without a title, one without title and PMID, and one whose year is not a number.
\<close>

definition pubmed_world :: "xml \<Rightarrow> real world" where
  "pubmed_world tree =
     \<lparr>requests_get = (\<lambda>k req. case req of Get url params timeout \<Rightarrow>
          (case map_of params ''retmode'' of
             Some (JStr m) \<Rightarrow>
               if m = ''json''
               then Inr \<lparr>resp_status = 200,
                         resp_json = Inr (JObj [(''esearchresult'',
                                        JObj [(''idlist'', JArr [JStr ''1'', JStr ''2''])])]),
                         resp_xml = Inl ParseError\<rparr>
               else Inr \<lparr>resp_status = 200, resp_json = Inl JSONDecodeError,
                         resp_xml = Inr tree\<rparr>
           | _ \<Rightarrow> Inl RequestException)),
      model_encode = (\<lambda>t. real (length t)),
      pytorch_cos_sim = (\<lambda>a b. 1),
      strptime_year = (\<lambda>t. Inl ValueError),
      py_int = decimal_int,
      py_format = plain_format\<rparr>"

definition article_complete :: xml where
  "article_complete =
     Element ''PubmedArticle'' None
       [Element ''PMID'' (Some ''2'') [],
        Element ''Article'' None
          [Element ''ArticleTitle'' (Some ''T'') [],
           Element ''Abstract'' None [Element ''AbstractText'' (Some ''x'') []],
           Element ''PubDate'' None [Element ''Year'' (Some ''2021'') []]]]"

definition article_undated :: xml where
  "article_undated =
     Element ''PubmedArticle'' None
       [Element ''PMID'' (Some ''3'') [],
        Element ''Article'' None
          [Element ''ArticleTitle'' (Some ''U'') [],
           Element ''Abstract'' None [Element ''AbstractText'' (Some ''y'') []]]]"

definition article_untitled :: xml where
  "article_untitled =
     Element ''PubmedArticle'' None
       [Element ''PMID'' (Some ''1'') [],
        Element ''Article'' None
          [Element ''Abstract'' None [Element ''AbstractText'' (Some ''z'') []]]]"

definition article_untitled_no_pmid :: xml where
  "article_untitled_no_pmid =
     Element ''PubmedArticle'' None
       [Element ''Article'' None
          [Element ''Abstract'' None [Element ''AbstractText'' (Some ''z'') []]]]"

definition article_bad_year :: xml where
  "article_bad_year =
     Element ''PubmedArticle'' None
       [Element ''PMID'' (Some ''4'') [],
        Element ''Article'' None
          [Element ''ArticleTitle'' (Some ''V'') [],
           Element ''Abstract'' None [Element ''AbstractText'' (Some ''w'') []],
           Element ''PubDate'' None [Element ''Year'' (Some ''20x1'') []]]]"

definition article_set :: "xml list \<Rightarrow> xml" where
  "article_set articles = Element ''PubmedArticleSet'' None articles"

lemma pubmed_world_ids:
  "fst (pubmed_search_ids (pubmed_world tree) ''q'' 20 new_session)
     = Inr (JArr [JStr ''1'', JStr ''2''])"
  by (simp add: pubmed_search_ids_def bind_action_def http_get_def pubmed_world_def lift_def
      raise_for_status_def bind_exn_def)

lemma pubmed_world_tree:
  "fst (pubmed_fetch_root (pubmed_world tree) (JArr [JStr ''1'', JStr ''2''])
          (snd (pubmed_search_ids (pubmed_world tree) ''q'' 20 new_session)))
     = Inr tree"
  by (simp add: pubmed_fetch_root_def pubmed_search_ids_def bind_action_def http_get_def
      pubmed_world_def lift_def raise_for_status_def bind_exn_def)

lemma findall_desc_article_set:
  "findall_desc (article_set [article_untitled_no_pmid, article_complete]) ''PubmedArticle''
     = [article_untitled_no_pmid, article_complete]"
  "findall_desc (article_set [article_untitled, article_complete, article_undated])
       ''PubmedArticle''
     = [article_untitled, article_complete, article_undated]"
  "findall_desc (article_set [article_complete, article_bad_year]) ''PubmedArticle''
     = [article_complete, article_bad_year]"
  by code_simp+

lemma articles_evaluated:
  "has_title_and_abstract article_complete"
  "has_title_and_abstract article_undated"
  "\<not> has_title_and_abstract article_untitled"
  "\<not> has_title_and_abstract article_untitled_no_pmid"
  "find_desc article_untitled_no_pmid ''PMID'' = None"
  "find_desc_child article_bad_year ''PubDate'' ''Year'' = Some (Element ''Year'' (Some ''20x1'') [])"
  "decimal_int ''20x1'' = Inl ValueError"
  "decimal_int ''2021'' = Inr 2021"
  by code_simp+

lemma pubmed_world_py_int: "py_int (pubmed_world tree) = decimal_int"
  by (simp add: pubmed_world_def)

lemma pubmed_article_complete:
  assumes "py_int w = decimal_int"
  shows "pubmed_article w article_complete
           = Inr (Some (JObj [(''title'', JStr ''T''), (''abstract'', JStr ''x''),
                              (''url'', JStr ''https://pubmed.ncbi.nlm.nih.gov/2/''),
                              (''year'', JInt 2021)]))"
proof -
  have "pubmed_article failing_world article_complete
          = Inr (Some (JObj [(''title'', JStr ''T''), (''abstract'', JStr ''x''),
                             (''url'', JStr ''https://pubmed.ncbi.nlm.nih.gov/2/''),
                             (''year'', JInt 2021)]))"
    by code_simp
  moreover have same: "py_int w = py_int failing_world"
    using assms by (simp add: failing_world_def)
  have "pubmed_article w article_complete = pubmed_article failing_world article_complete"
    unfolding pubmed_article_def same by (rule refl)
  ultimately show ?thesis by simp
qed

text \<open>
  \<^bold>\<open>C5\<close>, as stated, fails: the PMID and the year of an article are read before the
  test that skips it. In a fetch of an article without title and without PMID followed
  by a complete article, the first article is not skipped but raises
  \<^verbatim>\<open>AttributeError\<close>, and the adapter returns the empty list with an error message
  instead of the complete article.
\<close>

theorem search_pubmed_skip_counterexample:
  "findall_desc (article_set [article_untitled_no_pmid, article_complete]) ''PubmedArticle''
     = [article_untitled_no_pmid, article_complete]
   \<and> \<not> has_title_and_abstract article_untitled_no_pmid
   \<and> has_title_and_abstract article_complete
   \<and> fst (search_pubmed_fn
            (pubmed_world (article_set [article_untitled_no_pmid, article_complete]))
            ''q'' 20 new_session)
       = Inr ([Source_error PubMed AttributeError], [])
   \<and> fst (search_pubmed_fn
            (pubmed_world (article_set [article_untitled_no_pmid, article_complete]))
            ''q'' 20 new_session)
       \<noteq> Inr ([], [article_paper
                      (pubmed_world (article_set [article_untitled_no_pmid, article_complete]))
                      article_complete])"
proof -
  let ?tree = "article_set [article_untitled_no_pmid, article_complete]"
  have "pubmed_article (pubmed_world ?tree) article_untitled_no_pmid = Inl AttributeError"
    by code_simp
  then have "pubmed_articles (pubmed_world ?tree) (findall_desc ?tree ''PubmedArticle'')
               = Inl AttributeError"
    by (simp only: findall_desc_article_set pubmed_articles.simps bind_exn_def sum.case)
  with pubmed_try_fetched [OF pubmed_world_ids _ pubmed_world_tree, of ?tree]
  have "fst (pubmed_try (pubmed_world ?tree) ''q'' 20 new_session) = Inl AttributeError"
    by simp
  then have "fst (search_pubmed_fn (pubmed_world ?tree) ''q'' 20 new_session)
               = Inr ([Source_error PubMed AttributeError], [])"
    by (simp add: search_pubmed_fn_fst)
  then show ?thesis
    by (simp add: findall_desc_article_set articles_evaluated)
qed

text \<open>
  \<^bold>\<open>C5\<close>, amended. When the PMID element of every fetched article is present and
  \<^verbatim>\<open>int\<close> accepts the text of every \<^verbatim>\<open>PubDate/Year\<close> present, the adapter returns,
  without an error message, the records of exactly the articles that have a title and an
  abstract, in the order of the document; the articles lacking either are skipped. The
  year of a returned record is the integer of \<^verbatim>\<open>PubDate/Year\<close> when the element is
  present and \<^verbatim>\<open>None\<close> otherwise.
\<close>

theorem search_pubmed_skips_incomplete:
  assumes "fst (pubmed_search_ids w query limit s) = Inr ids"
    and "truthy ids"
    and "fst (pubmed_fetch_root w ids (snd (pubmed_search_ids w query limit s))) = Inr tree"
    and "\<forall>a \<in> set (findall_desc tree ''PubmedArticle''). pmid_and_year_readable w a"
  shows "fst (search_pubmed_fn w query limit s)
           = Inr ([], map (article_paper w)
                        (filter has_title_and_abstract (findall_desc tree ''PubmedArticle'')))
       \<and> (\<forall>a \<in> set (findall_desc tree ''PubmedArticle'').
            (find_desc_child a ''PubDate'' ''Year'' = None \<longrightarrow>
               py_getitem (article_paper w a) ''year'' = Inr JNull)
          \<and> (\<forall>d. find_desc_child a ''PubDate'' ''Year'' = Some d \<longrightarrow>
                 (\<exists>t y. elem_text d = Some t \<and> py_int w t = Inr y
                        \<and> py_getitem (article_paper w a) ''year'' = Inr (JInt y))))"
proof -
  have "fst (pubmed_try w query limit s)
          = Inr (map (article_paper w)
                   (filter has_title_and_abstract (findall_desc tree ''PubmedArticle'')))"
    using pubmed_try_fetched [OF assms(1-3)] pubmed_articles_readable [OF assms(4)]
    by simp
  then have result: "fst (search_pubmed_fn w query limit s)
      = Inr ([], map (article_paper w)
                   (filter has_title_and_abstract (findall_desc tree ''PubmedArticle'')))"
    by (simp add: search_pubmed_fn_fst)
  have year: "(find_desc_child a ''PubDate'' ''Year'' = None \<longrightarrow>
               py_getitem (article_paper w a) ''year'' = Inr JNull)
          \<and> (\<forall>d. find_desc_child a ''PubDate'' ''Year'' = Some d \<longrightarrow>
                 (\<exists>t y. elem_text d = Some t \<and> py_int w t = Inr y
                        \<and> py_getitem (article_paper w a) ''year'' = Inr (JInt y)))"
    if "pmid_and_year_readable w a" for a
    using that
    by (auto simp: pmid_and_year_readable_def article_paper_def article_year_def
        split: option.splits sum.splits)
  from result year assms(4) show ?thesis by blast
qed

text \<open>The witness: the article without a title is skipped, the complete article and the
  one without a date are returned, the latter with the year \<^verbatim>\<open>None\<close>.\<close>

theorem search_pubmed_skips_incomplete_witness:
  "fst (search_pubmed_fn
          (pubmed_world (article_set [article_untitled, article_complete, article_undated]))
          ''q'' 20 new_session)
     = Inr ([], [JObj [(''title'', JStr ''T''), (''abstract'', JStr ''x''),
                       (''url'', JStr ''https://pubmed.ncbi.nlm.nih.gov/2/''),
                       (''year'', JInt 2021)],
                 JObj [(''title'', JStr ''U''), (''abstract'', JStr ''y''),
                       (''url'', JStr ''https://pubmed.ncbi.nlm.nih.gov/3/''),
                       (''year'', JNull)]])"
proof -
  let ?tree = "article_set [article_untitled, article_complete, article_undated]"
  let ?w = "pubmed_world ?tree"
  have "pmid_and_year_readable ?w article_untitled"
    and "pmid_and_year_readable ?w article_complete"
    and "pmid_and_year_readable ?w article_undated"
    by code_simp+
  then have readable:
    "\<forall>a \<in> set (findall_desc ?tree ''PubmedArticle''). pmid_and_year_readable ?w a"
    by (simp add: findall_desc_article_set)
  have papers:
    "article_paper ?w article_complete
       = JObj [(''title'', JStr ''T''), (''abstract'', JStr ''x''),
               (''url'', JStr ''https://pubmed.ncbi.nlm.nih.gov/2/''), (''year'', JInt 2021)]"
    "article_paper ?w article_undated
       = JObj [(''title'', JStr ''U''), (''abstract'', JStr ''y''),
               (''url'', JStr ''https://pubmed.ncbi.nlm.nih.gov/3/''), (''year'', JNull)]"
    by code_simp+
  have ids: "truthy (JArr [JStr ''1'', JStr ''2''])" by simp
  from search_pubmed_skips_incomplete [OF pubmed_world_ids ids pubmed_world_tree readable]
  show ?thesis
    by (simp add: findall_desc_article_set articles_evaluated papers)
qed

text \<open>
  \<^bold>\<open>C9.\<close> The PMID and the year are read for every article, before the test for title
  and abstract. So when one fetched article, with or without title and abstract, has no
  PMID element, or has a \<^verbatim>\<open>PubDate/Year\<close> whose text is missing or is a text on which
  \<^verbatim>\<open>int\<close> raises, the exception is caught at the adapter boundary and the adapter
  returns the empty list with an error message: all articles of the fetch are discarded.
\<close>

theorem search_pubmed_unreadable_article_empties_result:
  assumes "fst (pubmed_search_ids w query limit s) = Inr ids"
    and "truthy ids"
    and "fst (pubmed_fetch_root w ids (snd (pubmed_search_ids w query limit s))) = Inr tree"
    and "article \<in> set (findall_desc tree ''PubmedArticle'')"
    and "find_desc article ''PMID'' = None
         \<or> (\<exists>d. find_desc_child article ''PubDate'' ''Year'' = Some d
                \<and> (elem_text d = None \<or> (\<exists>t e. elem_text d = Some t \<and> py_int w t = Inl e)))"
  shows "\<exists>e. fst (search_pubmed_fn w query limit s) = Inr ([Source_error PubMed e], [])"
proof -
  from assms(5) have "\<not> pmid_and_year_readable w article"
    by (auto simp: pmid_and_year_readable_def)
  from pubmed_articles_unreadable [OF assms(4) this] obtain e where
    "pubmed_articles w (findall_desc tree ''PubmedArticle'') = Inl e" ..
  with pubmed_try_fetched [OF assms(1-3)]
  have "fst (pubmed_try w query limit s) = Inl e" by simp
  then show ?thesis by (simp add: search_pubmed_fn_fst)
qed

text \<open>The witness: a complete article followed by one whose year is \<^verbatim>\<open>20x1\<close>, on which
  \<^verbatim>\<open>int\<close> raises \<^verbatim>\<open>ValueError\<close>.\<close>

theorem search_pubmed_unreadable_article_empties_result_witness:
  "article_bad_year \<in> set (findall_desc (article_set [article_complete, article_bad_year])
                             ''PubmedArticle'')
   \<and> find_desc_child article_bad_year ''PubDate'' ''Year''
       = Some (Element ''Year'' (Some ''20x1'') [])
   \<and> py_int (pubmed_world (article_set [article_complete, article_bad_year])) ''20x1''
       = Inl ValueError
   \<and> (\<exists>e. fst (search_pubmed_fn
                 (pubmed_world (article_set [article_complete, article_bad_year]))
                 ''q'' 20 new_session)
            = Inr ([Source_error PubMed e], []))"
proof -
  let ?tree = "article_set [article_complete, article_bad_year]"
  let ?w = "pubmed_world ?tree"
  have mem: "article_bad_year \<in> set (findall_desc ?tree ''PubmedArticle'')"
    by (simp add: findall_desc_article_set)
  have ids: "truthy (JArr [JStr ''1'', JStr ''2''])" by simp
  have int: "py_int ?w ''20x1'' = Inl ValueError"
    by (simp add: pubmed_world_py_int articles_evaluated)
  then have bad: "find_desc article_bad_year ''PMID'' = None
     \<or> (\<exists>d. find_desc_child article_bad_year ''PubDate'' ''Year'' = Some d
            \<and> (elem_text d = None \<or> (\<exists>t e. elem_text d = Some t \<and> py_int ?w t = Inl e)))"
    by (simp add: articles_evaluated)
  from search_pubmed_unreadable_article_empties_result
         [OF pubmed_world_ids ids pubmed_world_tree mem bad] mem int
  show ?thesis by (simp add: articles_evaluated)
qed

section \<open>No paper from any source\<close>

text \<open>The vectors stored in the embedding cache are one per text, as the model returns
  them.\<close>

definition embed_cache_sized :: "'v session \<Rightarrow> bool" where
  "embed_cache_sized s =
     (\<forall>texts vs. embed_cache s texts = Some vs \<longrightarrow> length vs = length texts)"

lemma bind_action_fst:
  "bind_action m f s =
     (case fst (m s) of Inl e \<Rightarrow> (Inl e, snd (m s)) | Inr x \<Rightarrow> f x (snd (m s)))"
  by (simp add: bind_action_def split: prod.splits sum.splits)






section \<open>A repeated query is served from the caches\<close>

text \<open>
  One session extends another when each of its four caches holds all entries of the
  other; an action keeps the caches when it changes none of them. An action is
  replayable when it only extends the caches and, run again in any session that extends
  the one it left, returns the same result and leaves that session as it is.
\<close>

definition cache_le :: "'v session \<Rightarrow> 'v session \<Rightarrow> bool" where
  "cache_le s s' =
     (map_le (ss_cache s) (ss_cache s') \<and> map_le (arxiv_cache s) (arxiv_cache s')
      \<and> map_le (pubmed_cache s) (pubmed_cache s') \<and> map_le (embed_cache s) (embed_cache s'))"

definition same_caches :: "'v session \<Rightarrow> 'v session \<Rightarrow> bool" where
  "same_caches s s' =
     (ss_cache s' = ss_cache s \<and> arxiv_cache s' = arxiv_cache s
      \<and> pubmed_cache s' = pubmed_cache s \<and> embed_cache s' = embed_cache s)"

definition keeps_caches :: "('a, 'v) action \<Rightarrow> bool" where
  "keeps_caches m = (\<forall>s. same_caches s (snd (m s)))"

definition replayable :: "('a, 'v) action \<Rightarrow> bool" where
  "replayable m =
     (\<forall>s. cache_le s (snd (m s)) \<and> (\<forall>s'. cache_le (snd (m s)) s' \<longrightarrow> m s' = (fst (m s), s')))"

lemma cache_le_refl: "cache_le s s"
  by (simp add: cache_le_def)

lemma cache_le_trans: "cache_le s s' \<Longrightarrow> cache_le s' s'' \<Longrightarrow> cache_le s s''"
  unfolding cache_le_def by (blast intro: map_le_trans)

lemma same_caches_le: "same_caches s s' \<Longrightarrow> cache_le s s'"
  by (simp add: same_caches_def cache_le_def)

lemma same_caches_refl: "same_caches s s"
  by (simp add: same_caches_def)

lemma same_caches_trans: "same_caches s s' \<Longrightarrow> same_caches s' s'' \<Longrightarrow> same_caches s s''"
  by (simp add: same_caches_def)

lemma keeps_ret: "keeps_caches (ret x)"
  by (simp add: keeps_caches_def ret_def same_caches_refl)

lemma keeps_lift: "keeps_caches (lift r)"
  by (simp add: keeps_caches_def lift_def same_caches_refl)

lemma keeps_http_get: "keeps_caches (http_get w req)"
  by (simp add: keeps_caches_def http_get_def same_caches_def)

lemma keeps_embed_texts_fn: "keeps_caches (embed_texts_fn w texts)"
  by (simp add: keeps_caches_def embed_texts_fn_def same_caches_def)

lemma keeps_bind:
  assumes "keeps_caches m" and "\<And>x. keeps_caches (f x)"
  shows "keeps_caches (bind_action m f)"
  unfolding keeps_caches_def
proof
  fix s
  from assms(1) have m: "same_caches s (snd (m s))" by (simp add: keeps_caches_def)
  show "same_caches s (snd (bind_action m f s))"
  proof (cases "fst (m s)")
    case (Inl e)
    with m show ?thesis by (simp add: bind_action_fst)
  next
    case (Inr x)
    from assms(2) [of x] have "same_caches (snd (m s)) (snd (f x (snd (m s))))"
      by (simp add: keeps_caches_def)
    with m Inr show ?thesis
      by (simp add: bind_action_fst) (rule same_caches_trans)
  qed
qed

lemma keeps_try_except:
  assumes "keeps_caches m" and "\<And>e. keeps_caches (h e)"
  shows "keeps_caches (try_except m h)"
  unfolding keeps_caches_def
proof
  fix s
  from assms(1) have m: "same_caches s (snd (m s))" by (simp add: keeps_caches_def)
  show "same_caches s (snd (try_except m h s))"
  proof (cases "m s")
    case (Pair r s')
    show ?thesis
    proof (cases r)
      case (Inl e)
      from assms(2) [of e] have "same_caches s' (snd (h e s'))"
        by (simp add: keeps_caches_def)
      with m Pair Inl show ?thesis
        by (simp add: try_except_def) (rule same_caches_trans)
    next
      case (Inr x)
      with m Pair show ?thesis by (simp add: try_except_def)
    qed
  qed
qed

lemma keeps_if: "keeps_caches a \<Longrightarrow> keeps_caches b \<Longrightarrow> keeps_caches (if c then a else b)"
  by simp

lemma keeps_ss: "keeps_caches (search_semantic_scholar_fn w query limit)"
  unfolding search_semantic_scholar_fn_def ss_try_def
  by (intro keeps_try_except keeps_bind keeps_ret keeps_lift keeps_http_get)

lemma keeps_arxiv: "keeps_caches (search_arxiv_fn w query limit)"
  unfolding search_arxiv_fn_def arxiv_try_def
  by (intro keeps_try_except keeps_bind keeps_ret keeps_lift keeps_http_get)

lemma keeps_pubmed: "keeps_caches (search_pubmed_fn w query limit)"
  unfolding search_pubmed_fn_def pubmed_try_def pubmed_search_ids_def pubmed_fetch_root_def
  by (intro keeps_try_except keeps_bind keeps_ret keeps_lift keeps_http_get keeps_if)

lemma replayable_ret: "replayable (ret x)"
  by (simp add: replayable_def ret_def cache_le_refl)

lemma replayable_lift: "replayable (lift r)"
  by (simp add: replayable_def lift_def cache_le_refl)

lemma replayable_if: "replayable a \<Longrightarrow> replayable b \<Longrightarrow> replayable (if c then a else b)"
  by simp

lemma replayable_bind:
  assumes m: "replayable m" and f: "\<And>x. replayable (f x)"
  shows "replayable (bind_action m f)"
  unfolding replayable_def
proof (intro allI conjI impI)
  fix s
  from m have le: "cache_le s (snd (m s))" by (simp add: replayable_def)
  show "cache_le s (snd (bind_action m f s))"
  proof (cases "fst (m s)")
    case (Inl e)
    with le show ?thesis by (simp add: bind_action_fst)
  next
    case (Inr x)
    from f [of x] have "cache_le (snd (m s)) (snd (f x (snd (m s))))"
      by (simp add: replayable_def)
    with le Inr show ?thesis
      by (simp add: bind_action_fst) (rule cache_le_trans)
  qed
next
  fix s s'
  assume s': "cache_le (snd (bind_action m f s)) s'"
  from m have le: "cache_le s (snd (m s))"
    and again: "\<And>t. cache_le (snd (m s)) t \<Longrightarrow> m t = (fst (m s), t)"
    by (simp_all add: replayable_def)
  show "bind_action m f s' = (fst (bind_action m f s), s')"
  proof (cases "fst (m s)")
    case (Inl e)
    with s' have "cache_le (snd (m s)) s'" by (simp add: bind_action_fst)
    from again [OF this] Inl show ?thesis by (simp add: bind_action_fst)
  next
    case (Inr x)
    from f [of x] have fle: "cache_le (snd (m s)) (snd (f x (snd (m s))))"
      and fagain: "\<And>t. cache_le (snd (f x (snd (m s)))) t \<Longrightarrow> f x t = (fst (f x (snd (m s))), t)"
      by (simp_all add: replayable_def)
    from s' Inr have s'2: "cache_le (snd (f x (snd (m s)))) s'"
      by (simp add: bind_action_fst)
    with fle have "cache_le (snd (m s)) s'" by (rule cache_le_trans)
    from again [OF this] Inr fagain [OF s'2] show ?thesis
      by (simp add: bind_action_fst)
  qed
qed

lemma replayable_cache_data:
  assumes total: "\<And>s. \<exists>r. fst (f s) = Inr r"
    and keeps: "keeps_caches f"
    and le: "\<And>s s'. cache_le s s' \<Longrightarrow> map_le (lookup s) (lookup s')"
    and same: "\<And>s s'. same_caches s s' \<Longrightarrow> lookup s' = lookup s"
    and upd: "\<And>s k v. lookup s k = None \<Longrightarrow>
                cache_le s (update (\<lambda>c. c(k \<mapsto> v)) s)
                \<and> lookup (update (\<lambda>c. c(k \<mapsto> v)) s) k = Some v"
  shows "replayable (cache_data lookup update key f)"
  unfolding replayable_def
proof
  fix s
  let ?m = "cache_data lookup update key f"
  have hit: "?m t = (Inr r, t)" if "lookup t key = Some r" for t r
    using that by (simp add: cache_data_def)
  have later: "lookup s' key = Some r" if "lookup t key = Some r" "cache_le t s'" for t s' r
    using le [OF that(2)] that(1) by (auto simp: map_le_def dom_def)
  show "cache_le s (snd (?m s)) \<and> (\<forall>s'. cache_le (snd (?m s)) s' \<longrightarrow> ?m s' = (fst (?m s), s'))"
  proof (cases "lookup s key")
    case (Some r)
    with hit [OF Some] later [OF Some] show ?thesis
      by (simp add: cache_le_refl hit)
  next
    case None
    from total [of s] obtain r where r: "fst (f s) = Inr r" ..
    let ?s1 = "snd (f s)"
    let ?s2 = "update (\<lambda>c. c(key \<mapsto> r)) ?s1"
    from keeps have same1: "same_caches s ?s1" by (simp add: keeps_caches_def)
    from same [OF same1] None have "lookup ?s1 key = None" by simp
    from upd [OF this, of r] have le2: "cache_le ?s1 ?s2" and stored: "lookup ?s2 key = Some r"
      by simp_all
    from None r have run: "?m s = (Inr r, ?s2)"
      by (cases "f s") (simp add: cache_data_def)
    from same_caches_le [OF same1] le2 have "cache_le s ?s2" by (rule cache_le_trans)
    with run hit later [OF stored] show ?thesis by simp
  qed
qed

lemma map_le_upd_new: "m k = None \<Longrightarrow> map_le m (m(k \<mapsto> v))"
  by (auto simp: map_le_def domIff)

lemma replayable_embed_texts: "replayable (embed_texts w texts)"
  unfolding embed_texts_def
proof (rule replayable_cache_data)
  show "\<exists>r. fst (embed_texts_fn w texts s) = Inr r" for s
    by (simp add: embed_texts_fn_def)
  show "keeps_caches (embed_texts_fn w texts)"
    by (rule keeps_embed_texts_fn)
  show "map_le (embed_cache s) (embed_cache s')" if "cache_le s s'" for s s' :: "'a session"
    using that by (simp add: cache_le_def)
  show "embed_cache s' = embed_cache s" if "same_caches s s'" for s s' :: "'a session"
    using that by (simp add: same_caches_def)
  show "cache_le s (embed_cache_update (\<lambda>c. c(k \<mapsto> v)) s)
        \<and> embed_cache (embed_cache_update (\<lambda>c. c(k \<mapsto> v)) s) k = Some v"
    if "embed_cache s k = None" for s :: "'a session" and k v
    using that by (simp add: cache_le_def map_le_upd_new)
qed

lemma replayable_ss: "replayable (search_semantic_scholar w query limit)"
  unfolding search_semantic_scholar_def
proof (rule replayable_cache_data)
  show "\<exists>r. fst (search_semantic_scholar_fn w query limit s) = Inr r" for s
    by (rule search_semantic_scholar_fn_total)
  show "keeps_caches (search_semantic_scholar_fn w query limit)"
    by (rule keeps_ss)
  show "map_le (ss_cache s) (ss_cache s')" if "cache_le s s'" for s s' :: "'a session"
    using that by (simp add: cache_le_def)
  show "ss_cache s' = ss_cache s" if "same_caches s s'" for s s' :: "'a session"
    using that by (simp add: same_caches_def)
  show "cache_le s (ss_cache_update (\<lambda>c. c(k \<mapsto> v)) s)
        \<and> ss_cache (ss_cache_update (\<lambda>c. c(k \<mapsto> v)) s) k = Some v"
    if "ss_cache s k = None" for s :: "'a session" and k v
    using that by (simp add: cache_le_def map_le_upd_new)
qed

lemma replayable_arxiv: "replayable (search_arxiv w query limit)"
  unfolding search_arxiv_def
proof (rule replayable_cache_data)
  show "\<exists>r. fst (search_arxiv_fn w query limit s) = Inr r" for s
    by (rule search_arxiv_fn_total)
  show "keeps_caches (search_arxiv_fn w query limit)"
    by (rule keeps_arxiv)
  show "map_le (arxiv_cache s) (arxiv_cache s')" if "cache_le s s'" for s s' :: "'a session"
    using that by (simp add: cache_le_def)
  show "arxiv_cache s' = arxiv_cache s" if "same_caches s s'" for s s' :: "'a session"
    using that by (simp add: same_caches_def)
  show "cache_le s (arxiv_cache_update (\<lambda>c. c(k \<mapsto> v)) s)
        \<and> arxiv_cache (arxiv_cache_update (\<lambda>c. c(k \<mapsto> v)) s) k = Some v"
    if "arxiv_cache s k = None" for s :: "'a session" and k v
    using that by (simp add: cache_le_def map_le_upd_new)
qed

lemma replayable_pubmed: "replayable (search_pubmed w query limit)"
  unfolding search_pubmed_def
proof (rule replayable_cache_data)
  show "\<exists>r. fst (search_pubmed_fn w query limit s) = Inr r" for s
    by (rule search_pubmed_fn_total)
  show "keeps_caches (search_pubmed_fn w query limit)"
    by (rule keeps_pubmed)
  show "map_le (pubmed_cache s) (pubmed_cache s')" if "cache_le s s'" for s s' :: "'a session"
    using that by (simp add: cache_le_def)
  show "pubmed_cache s' = pubmed_cache s" if "same_caches s s'" for s s' :: "'a session"
    using that by (simp add: same_caches_def)
  show "cache_le s (pubmed_cache_update (\<lambda>c. c(k \<mapsto> v)) s)
        \<and> pubmed_cache (pubmed_cache_update (\<lambda>c. c(k \<mapsto> v)) s) k = Some v"
    if "pubmed_cache s k = None" for s :: "'a session" and k v
    using that by (simp add: cache_le_def map_le_upd_new)
qed

lemma replayable_main: "replayable (main w user_input start_year end_year num_results)"
  unfolding main_def Let_def split_def
  by (intro replayable_if replayable_bind replayable_ret replayable_lift
      replayable_embed_texts replayable_ss replayable_arxiv replayable_pubmed)

text \<open>The session after further submissions, each with its input, year range and number
  of results.\<close>

fun session_after :: "'v world \<Rightarrow> (string \<times> int \<times> int \<times> int) list \<Rightarrow> 'v session \<Rightarrow> 'v session" where
  "session_after w [] s = s"
| "session_after w ((user_input, start_year, end_year, num_results) # others) s =
     session_after w others (snd (main w user_input start_year end_year num_results s))"

lemma cache_le_session_after: "cache_le s (session_after w others s)"
proof (induction others arbitrary: s)
  case Nil
  show ?case by (simp add: cache_le_refl)
next
  case (Cons x others)
  obtain user_input start_year end_year num_results where
    x: "x = (user_input, start_year, end_year, num_results)"
    by (cases x) auto
  from replayable_main [of w user_input start_year end_year num_results]
  have "cache_le s (snd (main w user_input start_year end_year num_results s))"
    unfolding replayable_def by blast
  with Cons.IH [of "snd (main w user_input start_year end_year num_results s)"]
  show ?case unfolding x by (simp only: session_after.simps) (rule cache_le_trans)
qed

text \<open>
  \<^bold>\<open>C8.\<close> Submitting the same input with the same year range and number of results a
  second time, in the session that the first submission left or later in that session,
  after any other submissions, gives the same result (the same ranked output, or the
  same warning or exception) and leaves the session unchanged: no request is issued, the
  model does not run, and no cache changes. This holds for every world, also one that
  would answer the requests differently the second time, and for every session the
  first submission starts in.
\<close>

theorem main_repeat_served_from_cache:
  "main w user_input start_year end_year num_results
     (snd (main w user_input start_year end_year num_results s))
   = main w user_input start_year end_year num_results s
   \<and> main w user_input start_year end_year num_results
       (session_after w others (snd (main w user_input start_year end_year num_results s)))
     = (fst (main w user_input start_year end_year num_results s),
        session_after w others (snd (main w user_input start_year end_year num_results s)))
   \<and> net_calls (snd (main w user_input start_year end_year num_results
        (session_after w others (snd (main w user_input start_year end_year num_results s)))))
     = net_calls
         (session_after w others (snd (main w user_input start_year end_year num_results s)))
   \<and> model_runs (snd (main w user_input start_year end_year num_results
        (session_after w others (snd (main w user_input start_year end_year num_results s)))))
     = model_runs
         (session_after w others (snd (main w user_input start_year end_year num_results s)))"
proof -
  let ?m = "main w user_input start_year end_year num_results"
  from replayable_main [of w user_input start_year end_year num_results]
  have again: "cache_le (snd (?m s)) s' \<Longrightarrow> ?m s' = (fst (?m s), s')" for s'
    unfolding replayable_def by blast
  from again [OF cache_le_refl] have "?m (snd (?m s)) = ?m s" by simp
  moreover from again [OF cache_le_session_after]
  have "?m (session_after w others (snd (?m s)))
          = (fst (?m s), session_after w others (snd (?m s)))" .
  ultimately show ?thesis by simp
qed

text \<open>A run that ranks a paper: PubMed returns the complete article, the other two
  sources cannot be reached. The first submission issues four requests and runs the
  model twice; the second is served from the caches, also after a submission of another
  idea.\<close>

lemmas ranked_run_defs =
  search_semantic_scholar_def search_semantic_scholar_fn_def ss_try_def
  search_arxiv_def search_arxiv_fn_def arxiv_try_def
  search_pubmed_def search_pubmed_fn_def pubmed_try_def pubmed_search_ids_def
  pubmed_fetch_root_def embed_texts_def embed_texts_fn_def cache_data_def try_except_def
  bind_action_def ret_def lift_def http_get_def pubmed_world_def new_session_def
  raise_for_status_def bind_exn_def main_def Let_def py_index_def aggregate_def
  keep_paper_def plain_format_def rank_papers_def py_sort_reverse_def render_paper_def
  tier_color_def

lemma ranked_run_evaluated:
  "py_strip ''t'' = ''t''"
  "py_split (py_lower ''t'') = [''t'']"
  "re_sub_word ''t'' None ''T'' = emphasis ''T''"
  "re_sub_word ''t'' None ''x'' = ''x''"
  "findall_desc (article_set [article_complete]) ''PubmedArticle'' = [article_complete]"
  by code_simp+

theorem main_repeat_served_from_cache_witness:
  "fst (main (pubmed_world (article_set [article_complete])) ''t'' 2000 2024 20 new_session)
     = Inr (Ranked
         [Source_error SemanticScholar RequestException, Source_error Arxiv RequestException]
         [(1, JObj [(''title'', JStr ''T''), (''abstract'', JStr ''x''),
                    (''url'', JStr ''https://pubmed.ncbi.nlm.nih.gov/2/''),
                    (''year'', JInt 2021)])]
         [\<lparr>card_color = ''green'', card_title = JStr (emphasis ''T''),
           card_url = JStr ''https://pubmed.ncbi.nlm.nih.gov/2/'', card_year = JInt 2021,
           card_similarity = 1, card_abstract = JStr ''x''\<rparr>]
         [(JStr ''T'', JStr ''x'', JInt 2021, JStr ''https://pubmed.ncbi.nlm.nih.gov/2/'', 1)])
   \<and> net_calls (snd (main (pubmed_world (article_set [article_complete])) ''t'' 2000 2024 20
                       new_session)) = 4
   \<and> model_runs (snd (main (pubmed_world (article_set [article_complete])) ''t'' 2000 2024 20
                         new_session)) = 2
   \<and> main (pubmed_world (article_set [article_complete])) ''t'' 2000 2024 20
        (snd (main (pubmed_world (article_set [article_complete])) ''t'' 2000 2024 20
                new_session))
       = main (pubmed_world (article_set [article_complete])) ''t'' 2000 2024 20 new_session
   \<and> fst (main (pubmed_world (article_set [article_complete])) ''t'' 2000 2024 20
             (session_after (pubmed_world (article_set [article_complete]))
                [(''u'', 1990, 2000, 5)]
                (snd (main (pubmed_world (article_set [article_complete])) ''t'' 2000 2024 20
                        new_session))))
       = fst (main (pubmed_world (article_set [article_complete])) ''t'' 2000 2024 20
                new_session)"
proof -
  let ?w = "pubmed_world (article_set [article_complete])"
  have "fst (main ?w ''t'' 2000 2024 20 new_session)
     = Inr (Ranked
         [Source_error SemanticScholar RequestException, Source_error Arxiv RequestException]
         [(1, JObj [(''title'', JStr ''T''), (''abstract'', JStr ''x''),
                    (''url'', JStr ''https://pubmed.ncbi.nlm.nih.gov/2/''),
                    (''year'', JInt 2021)])]
         [\<lparr>card_color = ''green'', card_title = JStr (emphasis ''T''),
           card_url = JStr ''https://pubmed.ncbi.nlm.nih.gov/2/'', card_year = JInt 2021,
           card_similarity = 1, card_abstract = JStr ''x''\<rparr>]
         [(JStr ''T'', JStr ''x'', JInt 2021, JStr ''https://pubmed.ncbi.nlm.nih.gov/2/'', 1)])"
    by (simp add: ranked_run_defs ranked_run_evaluated pubmed_article_complete)
  moreover have "net_calls (snd (main ?w ''t'' 2000 2024 20 new_session)) = 4"
    by (simp add: ranked_run_defs ranked_run_evaluated pubmed_article_complete)
  moreover have "model_runs (snd (main ?w ''t'' 2000 2024 20 new_session)) = 2"
    by (simp add: ranked_run_defs ranked_run_evaluated pubmed_article_complete)
  moreover note main_repeat_served_from_cache
    [of ?w "''t''" 2000 2024 20 new_session "[(''u'', 1990, 2000, 5)]"]
  ultimately show ?thesis by simp
qed

section \<open>The sessions that runs of \<^verbatim>\<open>main\<close> reach\<close>

text \<open>A new session stores no embedding, and a run of \<^verbatim>\<open>main\<close> stores only what the
  model returned, one vector per text: every session reached from a new one satisfies
  \<open>embed_cache_sized\<close>.\<close>

definition keeps_sized :: "('a, 'v) action \<Rightarrow> bool" where
  "keeps_sized m = (\<forall>s. embed_cache_sized s \<longrightarrow> embed_cache_sized (snd (m s)))"

lemma same_caches_sized: "same_caches s s' \<Longrightarrow> embed_cache_sized s \<Longrightarrow> embed_cache_sized s'"
  by (simp add: same_caches_def embed_cache_sized_def)

lemma keeps_caches_sized: "keeps_caches m \<Longrightarrow> keeps_sized m"
  unfolding keeps_caches_def keeps_sized_def by (blast intro: same_caches_sized)

lemma keeps_sized_bind:
  assumes "keeps_sized m" and "\<And>x. keeps_sized (f x)"
  shows "keeps_sized (bind_action m f)"
  unfolding keeps_sized_def
proof (intro allI impI)
  fix s :: "'a session"
  assume "embed_cache_sized s"
  with assms(1) have m: "embed_cache_sized (snd (m s))" by (simp add: keeps_sized_def)
  show "embed_cache_sized (snd (bind_action m f s))"
  proof (cases "fst (m s)")
    case (Inl e)
    with m show ?thesis by (simp add: bind_action_fst)
  next
    case (Inr x)
    with m assms(2) [of x] show ?thesis by (simp add: bind_action_fst keeps_sized_def)
  qed
qed

lemma keeps_sized_if: "keeps_sized a \<Longrightarrow> keeps_sized b \<Longrightarrow> keeps_sized (if c then a else b)"
  by simp

lemma keeps_sized_cache_data:
  assumes "keeps_sized f"
    and "\<And>g s. embed_cache (update g s) = embed_cache s"
  shows "keeps_sized (cache_data lookup update key f)"
  unfolding keeps_sized_def
proof (intro allI impI)
  fix s :: "'a session"
  assume s: "embed_cache_sized s"
  with assms(1) have after: "embed_cache_sized (snd (f s))" by (simp add: keeps_sized_def)
  then have "embed_cache_sized (update g (snd (f s)))" for g
    by (simp add: embed_cache_sized_def assms(2))
  with s after show "embed_cache_sized (snd (cache_data lookup update key f s))"
    by (cases "f s") (auto simp: cache_data_def split: option.splits sum.splits)
qed

lemma keeps_sized_embed_texts: "keeps_sized (embed_texts w texts)"
  unfolding keeps_sized_def
proof (intro allI impI)
  fix s :: "'a session"
  assume "embed_cache_sized s"
  then show "embed_cache_sized (snd (embed_texts w texts s))"
    by (auto simp: embed_texts_def cache_data_def embed_texts_fn_def embed_cache_sized_def
        split: option.splits)
qed

lemma keeps_sized_main: "keeps_sized (main w user_input start_year end_year num_results)"
  unfolding main_def Let_def split_def search_semantic_scholar_def search_arxiv_def
    search_pubmed_def
  by (intro keeps_sized_if keeps_sized_bind keeps_sized_embed_texts keeps_sized_cache_data
      keeps_caches_sized keeps_ret keeps_lift keeps_ss keeps_arxiv keeps_pubmed) simp_all

lemma embed_cache_sized_new_session: "embed_cache_sized new_session"
  by (simp add: embed_cache_sized_def new_session_def)

lemma embed_cache_sized_main:
  "embed_cache_sized s \<Longrightarrow>
     embed_cache_sized (snd (main w user_input start_year end_year num_results s))"
  using keeps_sized_main [of w user_input start_year end_year num_results]
  by (simp add: keeps_sized_def)

end
